theory Spec2Isabelle
  imports Main "HOL-Library.AList"
begin

section \<open>The in-memory shop (lecture\_2 and lecture\_3, shop\_api/main.py)\<close>

text \<open>
  The two modules keep two module-level dictionaries, \<^verbatim>\<open>cart_storage\<close> and
  \<^verbatim>\<open>item_storage\<close>. A Python dictionary keeps its keys in insertion order, and
  the listing handlers iterate over \<^verbatim>\<open>.values()\<close>, so a dictionary is an
  association list here: \<open>map_of d k\<close> is the lookup \<^verbatim>\<open>d[k]\<close>,
  \<open>AList.update k v d\<close> is the store \<^verbatim>\<open>d[k] = v\<close> (in place when the key exists,
  at the end otherwise), \<open>length d\<close> is \<^verbatim>\<open>len(d)\<close> and \<open>map snd d\<close> is
  \<^verbatim>\<open>d.values()\<close>.
\<close>

subsection \<open>Values\<close>

text \<open>
  The handlers take the request body as \<^verbatim>\<open>product_data: dict\<close> and the classes are
  plain dataclasses, so nothing checks that a name is a string or a price a number: a
  product holds whatever JSON value the body gave. The type \<open>'n\<close> stands for Python's
  numbers (\<^verbatim>\<open>int\<close> and \<^verbatim>\<open>float\<close>). Python compares any two numbers without
  raising, so \<open>'n\<close> has an order, about which nothing is assumed. \<^verbatim>\<open>True\<close> and
  \<^verbatim>\<open>False\<close> are the numbers 1 and 0 to Python's arithmetic and comparisons.
\<close>

datatype 'n json =
    JNull
  | JBool bool
  | JNum 'n
  | JStr string
  | JArray "'n json list"
  | JObject "(string \<times> 'n json) list"

fun as_number :: "('n::{zero,one}) json \<Rightarrow> 'n option" where
  "as_number (JNum x) = Some x"
| "as_number (JBool b) = Some (if b then 1 else 0)"
| "as_number v = None"

text \<open>
  \<^verbatim>\<open>raise HTTPException(status_code=c, detail=d)\<close> is the value \<open>HTTPException c d\<close>;
  a missing key of the request body (\<^verbatim>\<open>product_data["name"]\<close>) is \<open>KeyError\<close>;
  comparing or adding a number and a value that is not one is \<open>TypeError\<close>; adding an
  \<^verbatim>\<open>int\<close> too large for a \<^verbatim>\<open>float\<close> to a \<^verbatim>\<open>float\<close> is \<open>OverflowError\<close>.
  A handler that can fail after it has written to a dictionary returns the store as well.
\<close>

datatype error = HTTPException nat string | KeyError string | TypeError | OverflowError

text \<open>\<^verbatim>\<open>value >= bound\<close> and \<^verbatim>\<open>value <= bound\<close> for a stored value and a float.\<close>

definition py_ge :: "('n::{ord,zero,one}) json \<Rightarrow> 'n \<Rightarrow> error + bool" where
  "py_ge v bound = (case as_number v of None \<Rightarrow> Inl TypeError | Some x \<Rightarrow> Inr (x \<ge> bound))"

definition py_le :: "('n::{ord,zero,one}) json \<Rightarrow> 'n \<Rightarrow> error + bool" where
  "py_le v bound = (case as_number v of None \<Rightarrow> Inl TypeError | Some x \<Rightarrow> Inr (x \<le> bound))"

text \<open>
  \<^verbatim>\<open>price + value\<close> for a float \<^verbatim>\<open>price\<close> and a stored value. The sum of a float
  and a number is the parameter \<open>add\<close>, \<open>None\<close> when Python raises
  \<^verbatim>\<open>OverflowError\<close>; nothing is assumed about it.
\<close>

definition py_add :: "('n \<Rightarrow> 'n \<Rightarrow> 'n option) \<Rightarrow> 'n \<Rightarrow> ('n::{zero,one}) json \<Rightarrow> error + 'n" where
  "py_add add price v =
     (case as_number v of
        None \<Rightarrow> Inl TypeError
      | Some x \<Rightarrow> (case add price x of None \<Rightarrow> Inl OverflowError | Some new_price \<Rightarrow> Inr new_price))"

text \<open>
  \<^verbatim>\<open>[x for x in xs if cond(x)]\<close> where the condition can raise: the first raise ends
  the comprehension.
\<close>

fun comprehension :: "('a \<Rightarrow> error + bool) \<Rightarrow> 'a list \<Rightarrow> error + 'a list" where
  "comprehension cond [] = Inr []"
| "comprehension cond (x # xs) =
     (case cond x of
        Inl e \<Rightarrow> Inl e
      | Inr keep \<Rightarrow>
          (case comprehension cond xs of
             Inl e \<Rightarrow> Inl e
           | Inr ys \<Rightarrow> Inr (if keep then x # ys else ys)))"

text \<open>
  \<^verbatim>\<open>xs[a:b]\<close> for Python integers: a negative bound counts from the end, and both
  bounds are clipped to the list.
\<close>

definition clip :: "int \<Rightarrow> int \<Rightarrow> int" where
  "clip n a = (if a < 0 then max (a + n) 0 else min a n)"

definition py_slice :: "'a list \<Rightarrow> int \<Rightarrow> int \<Rightarrow> 'a list" where
  "py_slice xs a b =
     (let n = int (length xs); lo = clip n a; hi = clip n b
      in take (nat (hi - lo)) (drop (nat lo) xs))"

subsection \<open>The classes and the store\<close>

text \<open>
  Field names carry a prefix, since the three classes share \<^verbatim>\<open>id\<close>, \<^verbatim>\<open>name\<close>,
  \<^verbatim>\<open>price\<close> and \<^verbatim>\<open>quantity\<close>. The fields that only the handlers' own code writes
  have the type of what it writes: identifiers and quantities are Python integers
  (\<open>int\<close>), \<^verbatim>\<open>deleted\<close> and \<^verbatim>\<open>available\<close> are booleans, and a cart's price is a
  float (it starts as \<^verbatim>\<open>0.0\<close> and is only ever replaced by the result of an addition
  to it).
\<close>

record 'n Product =
  prod_id :: int
  prod_name :: "'n json"
  prod_price :: "'n json"
  prod_deleted :: bool

record 'n CartProduct =
  cp_id :: int
  cp_name :: "'n json"
  cp_quantity :: int
  cp_available :: bool

record 'n ShoppingCart =
  cart_id :: int
  cart_items :: "'n CartProduct list"
  cart_price :: 'n
  cart_quantity :: int

record 'n shop =
  cart_storage :: "(int \<times> 'n ShoppingCart) list"
  item_storage :: "(int \<times> 'n Product) list"

definition empty_shop :: "'n shop" where
  "empty_shop = \<lparr>cart_storage = [], item_storage = []\<rparr>"

subsection \<open>Carts\<close>

definition create_shopping_cart :: "('n::zero) shop \<Rightarrow> int \<times> 'n shop" where
  "create_shopping_cart s =
     (let cid = int (length (cart_storage s)) + 1 in
      (cid, s\<lparr>cart_storage :=
          AList.update cid \<lparr>cart_id = cid, cart_items = [], cart_price = 0, cart_quantity = 0\<rparr>
            (cart_storage s)\<rparr>))"

text \<open>
  \<^verbatim>\<open>bound is None or x >= bound\<close> and \<^verbatim>\<open>bound is None or x <= bound\<close> for two
  numbers, as in the cart listing: a cart's price is a float and the quantities are
  integers, so these comparisons do not raise.
\<close>

definition none_or_ge :: "('a::ord) option \<Rightarrow> 'a \<Rightarrow> bool" where
  "none_or_ge bound x = (case bound of None \<Rightarrow> True | Some m \<Rightarrow> x \<ge> m)"

definition none_or_le :: "('a::ord) option \<Rightarrow> 'a \<Rightarrow> bool" where
  "none_or_le bound x = (case bound of None \<Rightarrow> True | Some m \<Rightarrow> x \<le> m)"

definition list_shopping_carts ::
  "int \<Rightarrow> int \<Rightarrow> ('n::ord) option \<Rightarrow> 'n option \<Rightarrow> int option \<Rightarrow> int option \<Rightarrow> 'n shop
     \<Rightarrow> 'n ShoppingCart list" where
  "list_shopping_carts offset limit min_price max_price min_quantity max_quantity s =
     (let filtered_carts =
        filter (\<lambda>cart.
            none_or_ge min_price (cart_price cart)
          \<and> none_or_le max_price (cart_price cart)
          \<and> none_or_ge min_quantity (sum_list (map cp_quantity (cart_items cart)))
          \<and> none_or_le max_quantity (sum_list (map cp_quantity (cart_items cart))))
          (map snd (cart_storage s))
      in py_slice filtered_carts offset (offset + limit))"

subsection \<open>Products\<close>

text \<open>
  The loop of \<^verbatim>\<open>partial_update_product\<close> over the keys of the body, in their order:
  each field is written as it is met, so the fields before an invalid one stay written
  when the handler raises.
\<close>

fun patch_fields :: "(string \<times> 'n json) list \<Rightarrow> 'n Product \<Rightarrow> error option \<times> 'n Product" where
  "patch_fields [] p = (None, p)"
| "patch_fields ((field, v) # fs) p =
     (if field = ''name'' then patch_fields fs (p\<lparr>prod_name := v\<rparr>)
      else if field = ''price'' then patch_fields fs (p\<lparr>prod_price := v\<rparr>)
      else (Some (HTTPException 422 ''Invalid field''), p))"

definition partial_update_product ::
  "int \<Rightarrow> (string \<times> 'n json) list \<Rightarrow> 'n shop \<Rightarrow> (error + 'n Product) \<times> 'n shop" where
  "partial_update_product product_id product_data s =
     (case map_of (item_storage s) product_id of
        None \<Rightarrow> (Inl (HTTPException 404 ''Item not found''), s)
      | Some p \<Rightarrow>
          if prod_deleted p then (Inl (HTTPException 304 ''Not modified''), s)
          else
            (case patch_fields product_data p of
               (Some e, p') \<Rightarrow>
                 (Inl e, s\<lparr>item_storage := AList.update product_id p' (item_storage s)\<rparr>)
             | (None, p') \<Rightarrow>
                 (Inr p', s\<lparr>item_storage := AList.update product_id p' (item_storage s)\<rparr>)))"

definition create_product ::
  "(string \<times> 'n json) list \<Rightarrow> 'n shop \<Rightarrow> (error + 'n Product) \<times> 'n shop" where
  "create_product product_data s =
     (let product_id = int (length (item_storage s)) + 1 in
      case map_of product_data ''name'' of
        None \<Rightarrow> (Inl (KeyError ''name''), s)
      | Some n \<Rightarrow>
          (case map_of product_data ''price'' of
             None \<Rightarrow> (Inl (KeyError ''price''), s)
           | Some x \<Rightarrow>
               (let p = \<lparr>prod_id = product_id, prod_name = n, prod_price = x,
                         prod_deleted = False\<rparr>
                in (Inr p, s\<lparr>item_storage := AList.update product_id p (item_storage s)\<rparr>))))"

definition retrieve_product :: "int \<Rightarrow> 'n shop \<Rightarrow> error + 'n Product" where
  "retrieve_product product_id s =
     (case map_of (item_storage s) product_id of
        None \<Rightarrow> Inl (HTTPException 404 ''Item not found'')
      | Some p \<Rightarrow>
          if prod_deleted p then Inl (HTTPException 404 ''Item not found (deleted)'')
          else Inr p)"

text \<open>
  The condition of the comprehension of \<^verbatim>\<open>list_products\<close>, with the short circuit of
  \<^verbatim>\<open>and\<close> and \<^verbatim>\<open>or\<close>: a price is compared only when the product passes the
  deletion test and the bound is given, and with \<^verbatim>\<open>max_price\<close> only when the
  comparison with \<^verbatim>\<open>min_price\<close> was true.
\<close>

definition keep_product ::
  "bool \<Rightarrow> ('n::{ord,zero,one}) option \<Rightarrow> 'n option \<Rightarrow> 'n Product \<Rightarrow> error + bool" where
  "keep_product show_deleted min_price max_price item =
     (if show_deleted \<or> \<not> prod_deleted item then
        (case (case min_price of None \<Rightarrow> Inr True | Some m \<Rightarrow> py_ge (prod_price item) m) of
           Inl e \<Rightarrow> Inl e
         | Inr min_ok \<Rightarrow>
             if min_ok
             then (case max_price of None \<Rightarrow> Inr True | Some m \<Rightarrow> py_le (prod_price item) m)
             else Inr False)
      else Inr False)"

definition list_products ::
  "int \<Rightarrow> int \<Rightarrow> ('n::{ord,zero,one}) option \<Rightarrow> 'n option \<Rightarrow> bool \<Rightarrow> 'n shop
     \<Rightarrow> error + 'n Product list" where
  "list_products offset limit min_price max_price show_deleted s =
     (case comprehension (keep_product show_deleted min_price max_price)
             (map snd (item_storage s)) of
        Inl e \<Rightarrow> Inl e
      | Inr filtered_items \<Rightarrow> Inr (py_slice filtered_items offset (offset + limit)))"

definition delete_product :: "int \<Rightarrow> 'n shop \<Rightarrow> (error + string) \<times> 'n shop" where
  "delete_product product_id s =
     (case map_of (item_storage s) product_id of
        None \<Rightarrow> (Inl (HTTPException 404 ''Item not found''), s)
      | Some p \<Rightarrow>
          if prod_deleted p then (Inr ''Item already marked as deleted'', s)
          else (Inr ''Item marked as deleted'',
                s\<lparr>item_storage :=
                    AList.update product_id (p\<lparr>prod_deleted := True\<rparr>) (item_storage s)\<rparr>))"

text \<open>
  The \<^verbatim>\<open>for ... else\<close> of \<^verbatim>\<open>add_product_to_cart\<close>: the first entry whose
  \<^verbatim>\<open>id\<close> is \<^verbatim>\<open>item_id\<close> gets one more and the loop breaks (\<open>Some\<close>); when
  the loop ends without a break the result is \<open>None\<close> and the caller appends.
\<close>

fun bump_first :: "int \<Rightarrow> 'n CartProduct list \<Rightarrow> 'n CartProduct list option" where
  "bump_first item_id [] = None"
| "bump_first item_id (cart_product # rest) =
     (if cp_id cart_product = item_id
      then Some (cart_product\<lparr>cp_quantity := cp_quantity cart_product + 1\<rparr> # rest)
      else map_option ((#) cart_product) (bump_first item_id rest))"

text \<open>
  The handler writes \<^verbatim>\<open>cart.items\<close> first, then \<^verbatim>\<open>cart.price += item.price\<close>, then
  \<^verbatim>\<open>cart.quantity += 1\<close>. When the addition raises, the cart keeps the new item list
  with its old price and quantity.
\<close>

definition add_product_to_cart ::
  "('n \<Rightarrow> 'n \<Rightarrow> 'n option) \<Rightarrow> int \<Rightarrow> int \<Rightarrow> ('n::{zero,one}) shop
     \<Rightarrow> (error + string) \<times> 'n shop" where
  "add_product_to_cart add cid item_id s =
     (case map_of (cart_storage s) cid of
        None \<Rightarrow> (Inl (HTTPException 404 ''Cart not found''), s)
      | Some cart \<Rightarrow>
          (case map_of (item_storage s) item_id of
             None \<Rightarrow> (Inl (HTTPException 404 ''Item not found''), s)
           | Some item \<Rightarrow>
               (let items' =
                      (case bump_first item_id (cart_items cart) of
                         Some bumped \<Rightarrow> bumped
                       | None \<Rightarrow>
                           cart_items cart @
                             [\<lparr>cp_id = prod_id item, cp_name = prod_name item, cp_quantity = 1,
                               cp_available = (\<not> prod_deleted item)\<rparr>])
                in case py_add add (cart_price cart) (prod_price item) of
                     Inl e \<Rightarrow>
                       (Inl e,
                        s\<lparr>cart_storage :=
                            AList.update cid (cart\<lparr>cart_items := items'\<rparr>) (cart_storage s)\<rparr>)
                   | Inr new_price \<Rightarrow>
                       (Inr ''Item added to cart'',
                        s\<lparr>cart_storage :=
                            AList.update cid
                              (cart\<lparr>cart_items := items', cart_price := new_price,
                                    cart_quantity := cart_quantity cart + 1\<rparr>)
                              (cart_storage s)\<rparr>))))"

definition update_product ::
  "int \<Rightarrow> (string \<times> 'n json) list \<Rightarrow> 'n shop \<Rightarrow> (error + 'n Product) \<times> 'n shop" where
  "update_product product_id product_data s =
     (case map_of (item_storage s) product_id of
        None \<Rightarrow> (Inl (HTTPException 404 ''Item not found''), s)
      | Some p \<Rightarrow>
          if prod_deleted p then (Inl (HTTPException 304 ''Not modified''), s)
          else
            (case (map_of product_data ''name'', map_of product_data ''price'') of
               (Some n, Some x) \<Rightarrow>
                 (let p' = p\<lparr>prod_name := n, prod_price := x\<rparr>
                  in (Inr p', s\<lparr>item_storage := AList.update product_id p' (item_storage s)\<rparr>))
             | _ \<Rightarrow> (Inl (HTTPException 422 ''Invalid field''), s)))"

subsection \<open>The handlers that differ in lecture\_3\<close>

text \<open>
  lecture\_3 repeats the module. Three handlers test
  \<^verbatim>\<open>product_id not in item_storage or item_storage[product_id].deleted\<close> in one
  guard and answer 404 to both; the other handlers are the same text as in lecture\_2
  (\<^verbatim>\<open>create_cart\<close> is \<^verbatim>\<open>create_shopping_cart\<close> under another name). The
  default of \<^verbatim>\<open>ShoppingCart.quantity\<close> is written \<^verbatim>\<open>0.0\<close> there, so the field
  is a float that counts the additions; a float counts exactly up to \<open>2\<^sup>5\<^sup>3\<close>, and
  the integer of the model follows it up to there.
\<close>

definition retrieve_product_l3 :: "int \<Rightarrow> 'n shop \<Rightarrow> error + 'n Product" where
  "retrieve_product_l3 product_id s =
     (case map_of (item_storage s) product_id of
        None \<Rightarrow> Inl (HTTPException 404 ''Item not found'')
      | Some p \<Rightarrow>
          if prod_deleted p then Inl (HTTPException 404 ''Item not found'') else Inr p)"

definition partial_update_product_l3 ::
  "int \<Rightarrow> (string \<times> 'n json) list \<Rightarrow> 'n shop \<Rightarrow> (error + 'n Product) \<times> 'n shop" where
  "partial_update_product_l3 product_id product_data s =
     (case map_of (item_storage s) product_id of
        None \<Rightarrow> (Inl (HTTPException 404 ''Item not found''), s)
      | Some p \<Rightarrow>
          if prod_deleted p then (Inl (HTTPException 404 ''Item not found''), s)
          else
            (case patch_fields product_data p of
               (Some e, p') \<Rightarrow>
                 (Inl e, s\<lparr>item_storage := AList.update product_id p' (item_storage s)\<rparr>)
             | (None, p') \<Rightarrow>
                 (Inr p', s\<lparr>item_storage := AList.update product_id p' (item_storage s)\<rparr>)))"

definition update_product_l3 ::
  "int \<Rightarrow> (string \<times> 'n json) list \<Rightarrow> 'n shop \<Rightarrow> (error + 'n Product) \<times> 'n shop" where
  "update_product_l3 product_id product_data s =
     (case map_of (item_storage s) product_id of
        None \<Rightarrow> (Inl (HTTPException 404 ''Item not found''), s)
      | Some p \<Rightarrow>
          if prod_deleted p then (Inl (HTTPException 404 ''Item not found''), s)
          else
            (case (map_of product_data ''name'', map_of product_data ''price'') of
               (Some n, Some x) \<Rightarrow>
                 (let p' = p\<lparr>prod_name := n, prod_price := x\<rparr>
                  in (Inr p', s\<lparr>item_storage := AList.update product_id p' (item_storage s)\<rparr>))
             | _ \<Rightarrow> (Inl (HTTPException 422 ''Invalid field''), s)))"

subsection \<open>Sequences of requests\<close>

text \<open>
  The requests that write to the store, and the store after one of them (whether the
  handler returned or raised). The GET handlers return no store: they write nothing.
\<close>

datatype version = Lecture2 | Lecture3

datatype 'n request =
    PostCart
  | PostItem "(string \<times> 'n json) list"
  | PatchItem int "(string \<times> 'n json) list"
  | PutItem int "(string \<times> 'n json) list"
  | DeleteItem int
  | PostCartAdd int int

fun step ::
  "('n \<Rightarrow> 'n \<Rightarrow> 'n option) \<Rightarrow> version \<Rightarrow> ('n::{zero,one}) request \<Rightarrow> 'n shop \<Rightarrow> 'n shop" where
  "step add v PostCart s = snd (create_shopping_cart s)"
| "step add v (PostItem product_data) s = snd (create_product product_data s)"
| "step add Lecture2 (PatchItem i product_data) s =
     snd (partial_update_product i product_data s)"
| "step add Lecture3 (PatchItem i product_data) s =
     snd (partial_update_product_l3 i product_data s)"
| "step add Lecture2 (PutItem i product_data) s = snd (update_product i product_data s)"
| "step add Lecture3 (PutItem i product_data) s = snd (update_product_l3 i product_data s)"
| "step add v (DeleteItem i) s = snd (delete_product i s)"
| "step add v (PostCartAdd c i) s = snd (add_product_to_cart add c i s)"

fun run ::
  "('n \<Rightarrow> 'n \<Rightarrow> 'n option) \<Rightarrow> version \<Rightarrow> ('n::{zero,one}) request list \<Rightarrow> 'n shop
     \<Rightarrow> 'n shop" where
  "run add v [] s = s"
| "run add v (r # rs) s = run add v rs (step add v r s)"



section \<open>The account registry (lecture\_4, demo\_service)\<close>

text \<open>
  The package \<^verbatim>\<open>lecture_4/demo_service\<close> is not among the sources: only its tests are
  (\<^verbatim>\<open>tests/lecture_4/hw\<close>). Its definitions below follow the specification, and the
  tests where they show a name or a value. Strings are lists of characters, so
  \<open>length\<close> counts what Python's \<^verbatim>\<open>len\<close> counts on a \<^verbatim>\<open>str\<close>.
\<close>

datatype UserRole = USER | ADMIN

text \<open>
  Modelled from the spec: the account of section 3 (identifier, username, display name,
  birthdate, role, password); the class itself is in the missing
  \<^verbatim>\<open>demo_service/core/users.py\<close>.
\<close>

record Account =
  uid :: int
  username :: string
  name :: string
  birthdate :: string
  role :: UserRole
  password :: string

text \<open>
  Modelled from the spec: the \<open>info\<close> handed to \<^verbatim>\<open>register\<close> (missing
  \<^verbatim>\<open>demo_service/core/users.py\<close>); the caller may leave the role out, as the tests do.
\<close>

record UserInfo =
  info_username :: string
  info_name :: string
  info_birthdate :: string
  info_role :: "UserRole option"
  info_password :: string

text \<open>
  Modelled from the spec: the errors of section 7 and of section 4.2 (missing
  \<^verbatim>\<open>demo_service\<close>). \<open>ServerError\<close> is the answer 500 of the reference.
\<close>

datatype user_error =
    ValidationError | ConflictError | NotFoundError | Unauthorized | Forbidden
  | BadRequest | ServerError

text \<open>
  Modelled from the spec: the registry, "a flat map keyed by an incrementing integer
  identifier, with a pluggable password-strength predicate" (missing
  \<^verbatim>\<open>demo_service/core/users.py\<close>, class \<^verbatim>\<open>UserService\<close>).
\<close>

record UserService =
  accounts :: "(int \<times> Account) list"
  password_validators :: "(string \<Rightarrow> bool) list"

text \<open>
  Modelled from the spec: the default predicate "length > 8" (missing
  \<^verbatim>\<open>demo_service/core/users.py\<close>); the tests name it and call it on
  \<^verbatim>\<open>"AnotherValidPass"\<close> and \<^verbatim>\<open>"tiny"\<close>.
\<close>

definition password_is_longer_than_8 :: "string \<Rightarrow> bool" where
  "password_is_longer_than_8 pw = (length pw > 8)"

text \<open>
  Modelled from the spec: a registry with no account and the given predicates (missing
  \<^verbatim>\<open>UserService\<close> constructor), and the one with the default predicate.
\<close>

definition new_service :: "(string \<Rightarrow> bool) list \<Rightarrow> UserService" where
  "new_service validators = \<lparr>accounts = [], password_validators = validators\<rparr>"

definition default_service :: UserService where
  "default_service = new_service [password_is_longer_than_8]"

text \<open>
  Modelled from the spec: \<^verbatim>\<open>get_by_id\<close> and \<^verbatim>\<open>get_by_username\<close> "return the
  account or an absent-value marker; no error on miss" (missing
  \<^verbatim>\<open>demo_service/core/users.py\<close>).
\<close>

definition get_by_id :: "int \<Rightarrow> UserService \<Rightarrow> Account option" where
  "get_by_id i svc = map_of (accounts svc) i"

definition get_by_username :: "string \<Rightarrow> UserService \<Rightarrow> Account option" where
  "get_by_username u svc = find (\<lambda>a. username a = u) (map snd (accounts svc))"

text \<open>
  Modelled from the spec: \<^verbatim>\<open>register(info)\<close> "fails with ConflictError if username
  already present; on success assigns a fresh identifier, stores the account with default
  role USER unless caller specifies otherwise, returns the stored account. Password must
  satisfy all configured strength predicates or the call fails with ValidationError before
  any mutation occurs" (missing \<^verbatim>\<open>demo_service/core/users.py\<close>). The checks are in
  the order the specification gives them, and the identifier is "current count + 1"
  (section 3).
\<close>

definition register :: "UserInfo \<Rightarrow> UserService \<Rightarrow> (user_error + Account) \<times> UserService" where
  "register user_info svc =
     (if get_by_username (info_username user_info) svc \<noteq> None then (Inl ConflictError, svc)
      else if \<not> list_all (\<lambda>validator. validator (info_password user_info))
                   (password_validators svc)
      then (Inl ValidationError, svc)
      else
        (let new_id = int (length (accounts svc)) + 1;
             entity = \<lparr>uid = new_id, username = info_username user_info,
                       name = info_name user_info, birthdate = info_birthdate user_info,
                       role = (case info_role user_info of None \<Rightarrow> USER | Some r \<Rightarrow> r),
                       password = info_password user_info\<rparr>
         in (Inr entity, svc\<lparr>accounts := AList.update new_id entity (accounts svc)\<rparr>)))"

text \<open>
  Modelled from the spec: \<^verbatim>\<open>grant_admin(id)\<close> "fails with NotFoundError if id unknown;
  otherwise flips role to ADMIN" (missing \<^verbatim>\<open>demo_service/core/users.py\<close>).
\<close>

definition grant_admin :: "int \<Rightarrow> UserService \<Rightarrow> (user_error + unit) \<times> UserService" where
  "grant_admin i svc =
     (case map_of (accounts svc) i of
        None \<Rightarrow> (Inl NotFoundError, svc)
      | Some a \<Rightarrow>
          (Inr (), svc\<lparr>accounts := AList.update i (a\<lparr>role := ADMIN\<rparr>) (accounts svc)\<rparr>))"

text \<open>
  Modelled from the spec: \<^verbatim>\<open>requires_author\<close> "looks up the account by username in
  the supplied credentials; if missing or password mismatch, fails with Unauthorized.
  Returns the resolved account" (missing \<^verbatim>\<open>demo_service/api/utils.py\<close>).
\<close>

definition requires_author :: "string \<Rightarrow> string \<Rightarrow> UserService \<Rightarrow> user_error + Account" where
  "requires_author cred_username cred_password svc =
     (case get_by_username cred_username svc of
        None \<Rightarrow> Inl Unauthorized
      | Some a \<Rightarrow> if password a = cred_password then Inr a else Inl Unauthorized)"

text \<open>
  Modelled from the spec: the query-by-id-or-username read operation (missing
  \<^verbatim>\<open>demo_service/api\<close>, route \<^verbatim>\<open>/user-get\<close>): "exactly one of {id, username}
  must be given: both or neither fails with BadRequest. A non-admin caller may only
  resolve their own account (by matching id/username to themselves); attempting to resolve
  another account fails" (a server error in the reference, as
  \<^verbatim>\<open>test_comprehensive_user_retrieval\<close> records). "Resolution miss fails with
  NotFound; success returns the account."
\<close>

definition get_user ::
  "Account \<Rightarrow> int option \<Rightarrow> string option \<Rightarrow> UserService \<Rightarrow> user_error + Account" where
  "get_user author id_param username_param svc =
     (case (id_param, username_param) of
        (Some i, Some u) \<Rightarrow> Inl BadRequest
      | (None, None) \<Rightarrow> Inl BadRequest
      | (Some i, None) \<Rightarrow>
          if role author = ADMIN \<or> uid author = i
          then (case get_by_id i svc of None \<Rightarrow> Inl NotFoundError | Some a \<Rightarrow> Inr a)
          else Inl ServerError
      | (None, Some u) \<Rightarrow>
          if role author = ADMIN \<or> username author = u
          then (case get_by_username u svc of None \<Rightarrow> Inl NotFoundError | Some a \<Rightarrow> Inr a)
          else Inl ServerError)"

text \<open>The calls that write to the registry, and the registry after a sequence of them.\<close>

datatype user_request = Register UserInfo | GrantAdmin int

fun user_step :: "user_request \<Rightarrow> UserService \<Rightarrow> UserService" where
  "user_step (Register user_info) svc = snd (register user_info svc)"
| "user_step (GrantAdmin i) svc = snd (grant_admin i svc)"

fun user_run :: "user_request list \<Rightarrow> UserService \<Rightarrow> UserService" where
  "user_run [] svc = svc"
| "user_run (r # rs) svc = user_run rs (user_step r svc)"

section \<open>Invariants of the stores\<close>

text \<open>
  The keys of a dictionary filled by \<^verbatim>\<open>d[len(d) + 1] = v\<close> alone are
  \<open>1, \<dots>, len(d)\<close>, in this order.
\<close>

definition keys_ok :: "(int \<times> 'a) list \<Rightarrow> bool" where
  "keys_ok d = (map fst d = [1..int (length d)])"

definition items_ok :: "(int \<times> 'n Product) list \<Rightarrow> bool" where
  "items_ok d = (keys_ok d \<and> (\<forall>(k, p) \<in> set d. prod_id p = k))"

definition cart_ok :: "'n ShoppingCart \<Rightarrow> bool" where
  "cart_ok c =
     ((\<forall>e \<in> set (cart_items c). 1 \<le> cp_quantity e)
      \<and> distinct (map cp_id (cart_items c)))"

definition carts_ok :: "(int \<times> 'n ShoppingCart) list \<Rightarrow> bool" where
  "carts_ok d = (keys_ok d \<and> (\<forall>(k, c) \<in> set d. cart_id c = k \<and> cart_ok c))"

definition inv :: "'n shop \<Rightarrow> bool" where
  "inv s = (items_ok (item_storage s) \<and> carts_ok (cart_storage s))"


definition service_ok :: "UserService \<Rightarrow> bool" where
  "service_ok svc =
     (keys_ok (accounts svc) \<and> (\<forall>(k, a) \<in> set (accounts svc). uid a = k))"

section \<open>Concrete stores\<close>

text \<open>
  For the concrete stores the numbers are integers and the addition never overflows.
\<close>

definition int_add :: "int \<Rightarrow> int \<Rightarrow> int option" where
  "int_add a b = Some (a + b)"

text \<open>
  A lecture\_2 store after four products are created, the fourth is deleted, two carts are
  created and three additions are made to the second cart.
\<close>

definition example_shop :: "int shop" where
  "example_shop = run int_add Lecture2
     [PostItem [(''name'', JStr ''a''), (''price'', JNum 5)],
      PostItem [(''name'', JStr ''b''), (''price'', JNum 20)],
      PostItem [(''name'', JStr ''c''), (''price'', JNum 10)],
      PostItem [(''name'', JStr ''d''), (''price'', JNum 15)],
      DeleteItem 4, PostCart, PostCart, PostCartAdd 2 2, PostCartAdd 2 3, PostCartAdd 2 2]
     empty_shop"

text \<open>The second cart of \<open>example_shop\<close>.\<close>

definition example_cart :: "int ShoppingCart" where
  "example_cart =
     \<lparr>cart_id = 2,
      cart_items =
        [\<lparr>cp_id = 2, cp_name = JStr ''b'', cp_quantity = 2, cp_available = True\<rparr>,
         \<lparr>cp_id = 3, cp_name = JStr ''c'', cp_quantity = 1, cp_available = True\<rparr>],
      cart_price = 50, cart_quantity = 3\<rparr>"

text \<open>A lecture\_3 store with one product, created and then deleted.\<close>

definition deleted_shop_l3 :: "int shop" where
  "deleted_shop_l3 =
     run int_add Lecture3
       [PostItem [(''name'', JStr ''pen''), (''price'', JNum 3)], DeleteItem 1] empty_shop"

text \<open>
  A lecture\_2 store after \<^verbatim>\<open>POST /item {"name": "x", "price": "free"}\<close> and
  \<^verbatim>\<open>POST /cart\<close>, and the same store after \<^verbatim>\<open>POST /cart/1/add/1\<close>.
\<close>

definition free_requests :: "int request list" where
  "free_requests = [PostItem [(''name'', JStr ''x''), (''price'', JStr ''free'')], PostCart]"

definition free_shop :: "int shop" where
  "free_shop = run int_add Lecture2 free_requests empty_shop"


text \<open>
  A registry with the default predicate after two registrations, and a third
  \<^verbatim>\<open>UserInfo\<close> whose password has exactly nine characters.
\<close>

definition alice_info :: UserInfo where
  "alice_info = \<lparr>info_username = ''alice'', info_name = ''Alice'',
                  info_birthdate = ''1990-01-01T00:00:00'', info_role = None,
                  info_password = ''AlicePassword1''\<rparr>"

definition root_info :: UserInfo where
  "root_info = \<lparr>info_username = ''root'', info_name = ''Root'',
                 info_birthdate = ''1980-01-01T00:00:00'', info_role = Some ADMIN,
                 info_password = ''RootPassword1''\<rparr>"

definition bob_info :: UserInfo where
  "bob_info = \<lparr>info_username = ''bob'', info_name = ''Bob'',
                info_birthdate = ''1992-02-02T00:00:00'', info_role = None,
                info_password = ''123456789''\<rparr>"

definition alice_account :: Account where
  "alice_account = \<lparr>uid = 1, username = ''alice'', name = ''Alice'',
             birthdate = ''1990-01-01T00:00:00'', role = USER,
             password = ''AlicePassword1''\<rparr>"

definition root_account :: Account where
  "root_account = \<lparr>uid = 2, username = ''root'', name = ''Root'',
            birthdate = ''1980-01-01T00:00:00'', role = ADMIN,
            password = ''RootPassword1''\<rparr>"

definition example_service :: UserService where
  "example_service = user_run [Register alice_info, Register root_info] default_service"


section \<open>Lemmas about the shop\<close>

lemma keys_ok_set: "keys_ok d \<Longrightarrow> fst ` set d = {1..int (length d)}"
proof -
  assume a: "keys_ok d"
  have "fst ` set d = set (map fst d)" by simp
  also have "\<dots> = {1..int (length d)}" using a by (simp add: keys_ok_def)
  finally show ?thesis .
qed

lemma keys_ok_fresh: "keys_ok d \<Longrightarrow> int (length d) + 1 \<notin> fst ` set d"
  by (simp add: keys_ok_set)

lemma length_update_old: "k \<in> fst ` set d \<Longrightarrow> length (AList.update k v d) = length d"
  by (induction d) auto

lemma length_update_new: "k \<notin> fst ` set d \<Longrightarrow> length (AList.update k v d) = Suc (length d)"
  by (induction d) auto

lemma keys_ok_append:
  assumes "keys_ok d" shows "keys_ok (AList.update (int (length d) + 1) v d)"
proof -
  let ?k = "int (length d) + 1"
  have fresh: "?k \<notin> fst ` set d" using assms by (rule keys_ok_fresh)
  have "map fst (AList.update ?k v d) = map fst d @ [?k]"
    using fresh by (simp add: update_keys)
  also have "\<dots> = [1..int (length d)] @ [?k]" using assms by (simp add: keys_ok_def)
  also have "\<dots> = [1..?k]" by (simp add: upto_rec2)
  finally show ?thesis using fresh by (simp add: keys_ok_def length_update_new add.commute)
qed

lemma map_of_Some_key: "map_of d k = Some v \<Longrightarrow> k \<in> fst ` set d"
  by (metis domI dom_map_of_conv_image_fst)

lemma keys_ok_update:
  assumes "keys_ok d" "map_of d k = Some v" shows "keys_ok (AList.update k v' d)"
proof -
  have k: "k \<in> fst ` set d" using assms(2) by (rule map_of_Some_key)
  then have "map fst (AList.update k v' d) = map fst d" by (simp add: update_keys)
  then show ?thesis using assms(1) k by (simp add: keys_ok_def length_update_old)
qed

lemma keys_ok_distinct: "keys_ok d \<Longrightarrow> distinct (map fst d)"
  by (simp add: keys_ok_def)

lemma set_update_cases:
  "(k', v') \<in> set (AList.update k v d) \<Longrightarrow> (k', v') = (k, v) \<or> (k', v') \<in> set d"
  by (induction d) (auto split: if_splits)

lemma items_ok_append:
  "items_ok d \<Longrightarrow> prod_id p = int (length d) + 1 \<Longrightarrow> items_ok (AList.update (int (length d) + 1) p d)"
  unfolding items_ok_def by (auto simp: keys_ok_append dest!: set_update_cases)

lemma items_ok_update:
  "items_ok d \<Longrightarrow> map_of d k = Some p \<Longrightarrow> prod_id p' = k \<Longrightarrow> items_ok (AList.update k p' d)"
  unfolding items_ok_def by (auto simp: keys_ok_update dest!: set_update_cases)

lemma items_ok_id: "items_ok d \<Longrightarrow> map_of d k = Some p \<Longrightarrow> prod_id p = k"
  unfolding items_ok_def by (auto dest: map_of_SomeD)

lemma carts_ok_append:
  "carts_ok d \<Longrightarrow> cart_id c = int (length d) + 1 \<Longrightarrow> cart_ok c \<Longrightarrow> carts_ok (AList.update (int (length d) + 1) c d)"
  unfolding carts_ok_def by (auto simp: keys_ok_append dest!: set_update_cases)

lemma carts_ok_update:
  "carts_ok d \<Longrightarrow> map_of d k = Some c \<Longrightarrow> cart_id c' = k \<Longrightarrow> cart_ok c' \<Longrightarrow> carts_ok (AList.update k c' d)"
  unfolding carts_ok_def by (auto simp: keys_ok_update dest!: set_update_cases)

lemma carts_ok_lookup: "carts_ok d \<Longrightarrow> map_of d k = Some c \<Longrightarrow> cart_id c = k \<and> cart_ok c"
  unfolding carts_ok_def by (auto dest: map_of_SomeD)

lemma patch_fields_id: "prod_id (snd (patch_fields fs p)) = prod_id p"
  by (induction fs p rule: patch_fields.induct) auto

lemma bump_first_None: "bump_first i xs = None \<longleftrightarrow> i \<notin> cp_id ` set xs"
  by (induction xs) auto

lemma bump_first_ids: "bump_first i xs = Some ys \<Longrightarrow> map cp_id ys = map cp_id xs"
  by (induction xs arbitrary: ys) (auto split: if_splits)


lemma bump_first_pos:
  "bump_first i xs = Some ys \<Longrightarrow> \<forall>e \<in> set xs. 1 \<le> cp_quantity e \<Longrightarrow>
     \<forall>e \<in> set ys. 1 \<le> cp_quantity e"
  by (induction xs arbitrary: ys) (auto split: if_splits)

lemma bump_first_distinct:
  "distinct (map cp_id xs) \<Longrightarrow> i \<in> cp_id ` set xs \<Longrightarrow>
     bump_first i xs =
       Some (map (\<lambda>e. if cp_id e = i then e\<lparr>cp_quantity := cp_quantity e + 1\<rparr> else e) xs)"
proof (induction xs)
  case Nil then show ?case by simp
next
  case (Cons x xs)
  show ?case
  proof (cases "cp_id x = i")
    case True
    then have "i \<notin> cp_id ` set xs" using Cons.prems(1) by simp
    then have "\<forall>e \<in> set xs. cp_id e \<noteq> i" by blast
    then have "map (\<lambda>e. if cp_id e = i then e\<lparr>cp_quantity := cp_quantity e + 1\<rparr> else e) xs = xs"
      by (simp add: map_idI)
    then show ?thesis using True by simp
  next
    case False
    then show ?thesis using Cons by auto
  qed
qed


lemma inv_empty: "inv empty_shop"
  by (simp add: inv_def empty_shop_def items_ok_def carts_ok_def keys_ok_def)

lemma inv_create_cart: "inv s \<Longrightarrow> inv (snd (create_shopping_cart s))"
  by (simp add: inv_def create_shopping_cart_def Let_def carts_ok_append cart_ok_def)

lemma inv_create_product: "inv s \<Longrightarrow> inv (snd (create_product pd s))"
  by (simp add: inv_def create_product_def Let_def items_ok_append split: option.splits)

lemma inv_delete: "inv s \<Longrightarrow> inv (snd (delete_product i s))"
  by (auto simp: inv_def delete_product_def items_ok_id intro!: items_ok_update split: option.splits)

lemma inv_patch: "inv s \<Longrightarrow> inv (snd (partial_update_product i pd s))"
proof -
  assume a: "inv s"
  have "items_ok (AList.update i (snd (patch_fields pd p)) (item_storage s))"
    if "map_of (item_storage s) i = Some p" for p
    using a that by (auto simp: inv_def patch_fields_id items_ok_id intro: items_ok_update)
  then show ?thesis using a
    by (auto simp: inv_def partial_update_product_def split: option.splits prod.splits)
qed

lemma inv_patch_l3: "inv s \<Longrightarrow> inv (snd (partial_update_product_l3 i pd s))"
proof -
  assume a: "inv s"
  have "items_ok (AList.update i (snd (patch_fields pd p)) (item_storage s))"
    if "map_of (item_storage s) i = Some p" for p
    using a that by (auto simp: inv_def patch_fields_id items_ok_id intro: items_ok_update)
  then show ?thesis using a
    by (auto simp: inv_def partial_update_product_l3_def split: option.splits prod.splits)
qed

lemma inv_put: "inv s \<Longrightarrow> inv (snd (update_product i pd s))"
  by (auto simp: inv_def update_product_def items_ok_id Let_def intro!: items_ok_update
           split: option.splits)

lemma inv_put_l3: "inv s \<Longrightarrow> inv (snd (update_product_l3 i pd s))"
  by (auto simp: inv_def update_product_l3_def items_ok_id Let_def intro!: items_ok_update
           split: option.splits)

lemma inv_add: "inv s \<Longrightarrow> inv (snd (add_product_to_cart add c i s))"
proof -
  assume a: "inv s"
  have upd: "carts_ok (AList.update c cart' (cart_storage s))"
    if c: "map_of (cart_storage s) c = Some cart" and i: "map_of (item_storage s) i = Some item"
      and its: "cart_items cart' =
        (case bump_first i (cart_items cart) of
           Some bumped \<Rightarrow> bumped
         | None \<Rightarrow>
             cart_items cart @
               [\<lparr>cp_id = prod_id item, cp_name = prod_name item, cp_quantity = 1,
                 cp_available = (\<not> prod_deleted item)\<rparr>])"
      and cid: "cart_id cart' = cart_id cart"
    for cart item cart'
  proof (rule carts_ok_update[OF _ c])
    show "carts_ok (cart_storage s)" using a by (simp add: inv_def)
    have ok: "cart_id cart = c" "cart_ok cart"
      using a c by (auto simp: inv_def dest: carts_ok_lookup)
    show "cart_id cart' = c" using ok cid by simp
    have pid: "prod_id item = i" using a i by (auto simp: inv_def dest: items_ok_id)
    show "cart_ok cart'"
    proof (cases "bump_first i (cart_items cart)")
      case None
      then have "i \<notin> cp_id ` set (cart_items cart)" by (simp add: bump_first_None)
      then show ?thesis using ok(2) None pid its by (simp add: cart_ok_def)
    next
      case (Some ys)
      then show ?thesis using ok(2) bump_first_ids[OF Some] bump_first_pos[OF Some] its
        by (simp add: cart_ok_def)
    qed
  qed
  show ?thesis
  proof (cases "map_of (cart_storage s) c")
    case None
    then show ?thesis using a by (simp add: add_product_to_cart_def)
  next
    case (Some cart)
    show ?thesis
    proof (cases "map_of (item_storage s) i")
      case None
      then show ?thesis using a Some by (simp add: add_product_to_cart_def)
    next
      case (Some item)
      note it = this
      show ?thesis
      proof (cases "py_add add (cart_price cart) (prod_price item)")
        case (Inl e)
        then show ?thesis using a \<open>map_of (cart_storage s) c = Some cart\<close> it
          by (simp add: add_product_to_cart_def Let_def inv_def upd)
      next
        case (Inr new_price)
        then show ?thesis using a \<open>map_of (cart_storage s) c = Some cart\<close> it
          by (simp add: add_product_to_cart_def Let_def inv_def upd)
      qed
    qed
  qed
qed

lemma inv_step: "inv s \<Longrightarrow> inv (step add v r s)"
  by (cases r; cases v)
     (simp_all add: inv_create_cart inv_create_product inv_patch inv_patch_l3 inv_put inv_put_l3
        inv_delete inv_add)

lemma inv_run: "inv s \<Longrightarrow> inv (run add v rs s)"
  by (induction rs arbitrary: s) (simp_all add: inv_step)

lemma inv_reachable: "inv (run add v rs empty_shop)"
  by (simp add: inv_run inv_empty)

section \<open>The claims about the shop\<close>

subsection \<open>Claim C8: the listings filter, then slice\<close>

lemma example_shop_value:
  "example_shop = \<lparr>cart_storage =
    [(1, \<lparr>cart_id = 1, cart_items = [], cart_price = 0, cart_quantity = 0\<rparr>),
     (2, \<lparr>cart_id = 2,
            cart_items =
              [\<lparr>cp_id = 2, cp_name = JStr ''b'', cp_quantity = 2, cp_available = True\<rparr>,
               \<lparr>cp_id = 3, cp_name = JStr ''c'', cp_quantity = 1, cp_available = True\<rparr>],
            cart_price = 50, cart_quantity = 3\<rparr>)],
    item_storage =
      [(1, \<lparr>prod_id = 1, prod_name = JStr ''a'', prod_price = JNum 5, prod_deleted = False\<rparr>),
       (2, \<lparr>prod_id = 2, prod_name = JStr ''b'', prod_price = JNum 20, prod_deleted = False\<rparr>),
       (3, \<lparr>prod_id = 3, prod_name = JStr ''c'', prod_price = JNum 10, prod_deleted = False\<rparr>),
       (4, \<lparr>prod_id = 4, prod_name = JStr ''d'', prod_price = JNum 15, prod_deleted = True\<rparr>)]\<rparr>"
  by (simp add: example_shop_def empty_shop_def create_product_def create_shopping_cart_def
        delete_product_def add_product_to_cart_def py_add_def int_add_def Let_def)

lemma free_shop_value:
  "free_shop = \<lparr>cart_storage =
      [(1, \<lparr>cart_id = 1, cart_items = [], cart_price = 0, cart_quantity = 0\<rparr>)],
    item_storage =
      [(1, \<lparr>prod_id = 1, prod_name = JStr ''x'', prod_price = JStr ''free'',
             prod_deleted = False\<rparr>)]\<rparr>"
  by (simp add: free_shop_def free_requests_def empty_shop_def create_product_def
        create_shopping_cart_def Let_def)

lemma py_slice_offset_limit:
  assumes "0 \<le> a" "0 \<le> l"
  shows "py_slice xs a (a + l) = take (nat l) (drop (nat a) xs)"
proof (cases "a < int (length xs)")
  case True
  then have lo: "clip (int (length xs)) a = a" using assms by (simp add: clip_def)
  show ?thesis
  proof (cases "a + l \<le> int (length xs)")
    case True
    then have "clip (int (length xs)) (a + l) = a + l" using assms by (simp add: clip_def)
    then show ?thesis using lo assms by (simp add: py_slice_def)
  next
    case False
    then have "clip (int (length xs)) (a + l) = int (length xs)"
      using assms by (simp add: clip_def)
    then show ?thesis using lo assms False by (simp add: py_slice_def)
  qed
next
  case False
  then have "clip (int (length xs)) a = int (length xs)" using assms by (simp add: clip_def)
  then show ?thesis using assms False by (simp add: py_slice_def)
qed

lemma none_or_ge_iff: "none_or_ge b x \<longleftrightarrow> (\<forall>m. b = Some m \<longrightarrow> m \<le> x)"
  by (cases b) (simp_all add: none_or_ge_def)

lemma none_or_le_iff: "none_or_le b x \<longleftrightarrow> (\<forall>m. b = Some m \<longrightarrow> x \<le> m)"
  by (cases b) (simp_all add: none_or_le_def)

lemma comprehension_filter:
  "(\<And>x. x \<in> set xs \<Longrightarrow> cond x = Inr (P x)) \<Longrightarrow> comprehension cond xs = Inr (filter P xs)"
  by (induction xs) simp_all

lemma keep_product_unbounded:
  "keep_product show_deleted None None p = Inr (show_deleted \<or> \<not> prod_deleted p)"
  by (simp add: keep_product_def)

lemma keep_product_number:
  assumes "as_number (prod_price p) = Some x"
  shows "keep_product show_deleted min_price max_price p =
           Inr ((show_deleted \<or> \<not> prod_deleted p)
                \<and> (\<forall>m. min_price = Some m \<longrightarrow> m \<le> x)
                \<and> (\<forall>m. max_price = Some m \<longrightarrow> x \<le> m))"
  using assms
  by (cases min_price; cases max_price) (simp_all add: keep_product_def py_ge_def py_le_def)

lemma keep_product_hidden:
  "\<not> (show_deleted \<or> \<not> prod_deleted p) \<Longrightarrow>
     keep_product show_deleted min_price max_price p = Inr False"
  by (simp add: keep_product_def)

lemma keep_product_spec:
  assumes "(min_price = None \<and> max_price = None)
           \<or> ((show_deleted \<or> \<not> prod_deleted p) \<longrightarrow> as_number (prod_price p) \<noteq> None)"
  shows "keep_product show_deleted min_price max_price p =
           Inr ((\<forall>m. min_price = Some m \<longrightarrow>
                   (\<exists>x. as_number (prod_price p) = Some x \<and> m \<le> x))
                \<and> (\<forall>m. max_price = Some m \<longrightarrow>
                   (\<exists>x. as_number (prod_price p) = Some x \<and> x \<le> m))
                \<and> (prod_deleted p \<longrightarrow> show_deleted))"
proof (cases "min_price = None \<and> max_price = None")
  case True
  then show ?thesis by (auto simp: keep_product_unbounded)
next
  case False
  show ?thesis
  proof (cases "show_deleted \<or> \<not> prod_deleted p")
    case True
    then obtain x where x: "as_number (prod_price p) = Some x" using assms False by auto
    show ?thesis using True by (auto simp: keep_product_number[OF x] x)
  next
    case False
    then show ?thesis by (auto simp: keep_product_hidden)
  qed
qed

text \<open>
  C8, where the prices that are compared are numbers. For every store and every
  combination of the optional filters, with the offset and the limit the routes accept
  (\<^verbatim>\<open>offset >= 0\<close>, \<^verbatim>\<open>limit > 0\<close>): when no price bound is given, or every stored
  product that passes the deletion test has a number as its price,
  \<^verbatim>\<open>list_products\<close> returns the stored products, in insertion order, whose price is at
  least \<open>min_price\<close> and at most \<open>max_price\<close> when these are given and which are not
  soft-deleted unless \<open>show_deleted\<close> is set, cut to the slice from \<open>offset\<close> to
  \<open>offset + limit\<close>; \<^verbatim>\<open>list_shopping_carts\<close> returns the carts whose price and whose
  summed item quantity lie within the given bounds, cut to the same slice.
\<close>

theorem listing_filters_then_slices:
  assumes "0 \<le> offset" and "0 < limit"
    and "(min_price = None \<and> max_price = None)
         \<or> (\<forall>p \<in> set (map snd (item_storage s)).
               (show_deleted \<or> \<not> prod_deleted p) \<longrightarrow> as_number (prod_price p) \<noteq> None)"
  shows "list_products offset limit min_price max_price show_deleted s =
           Inr (take (nat limit) (drop (nat offset)
             (filter (\<lambda>p. (\<forall>m. min_price = Some m \<longrightarrow>
                              (\<exists>x. as_number (prod_price p) = Some x \<and> m \<le> x))
                         \<and> (\<forall>m. max_price = Some m \<longrightarrow>
                              (\<exists>x. as_number (prod_price p) = Some x \<and> x \<le> m))
                         \<and> (prod_deleted p \<longrightarrow> show_deleted))
                (map snd (item_storage s)))))
       \<and> list_shopping_carts offset limit min_price max_price min_quantity max_quantity c =
           take (nat limit) (drop (nat offset)
             (filter (\<lambda>cart. (\<forall>m. min_price = Some m \<longrightarrow> m \<le> cart_price cart)
                         \<and> (\<forall>m. max_price = Some m \<longrightarrow> cart_price cart \<le> m)
                         \<and> (\<forall>m. min_quantity = Some m \<longrightarrow>
                                m \<le> sum_list (map cp_quantity (cart_items cart)))
                         \<and> (\<forall>m. max_quantity = Some m \<longrightarrow>
                                sum_list (map cp_quantity (cart_items cart)) \<le> m))
                (map snd (cart_storage c))))"
proof -
  have l: "0 \<le> limit" using assms(2) by simp
  have k: "keep_product show_deleted min_price max_price p =
           Inr ((\<forall>m. min_price = Some m \<longrightarrow>
                   (\<exists>x. as_number (prod_price p) = Some x \<and> m \<le> x))
                \<and> (\<forall>m. max_price = Some m \<longrightarrow>
                   (\<exists>x. as_number (prod_price p) = Some x \<and> x \<le> m))
                \<and> (prod_deleted p \<longrightarrow> show_deleted))"
    if "p \<in> set (map snd (item_storage s))" for p
    using assms(3) that by (intro keep_product_spec) blast
  have "list_products offset limit min_price max_price show_deleted s =
           Inr (take (nat limit) (drop (nat offset)
             (filter (\<lambda>p. (\<forall>m. min_price = Some m \<longrightarrow>
                              (\<exists>x. as_number (prod_price p) = Some x \<and> m \<le> x))
                         \<and> (\<forall>m. max_price = Some m \<longrightarrow>
                              (\<exists>x. as_number (prod_price p) = Some x \<and> x \<le> m))
                         \<and> (prod_deleted p \<longrightarrow> show_deleted))
                (map snd (item_storage s)))))"
    unfolding list_products_def
    by (simp only: comprehension_filter[of _ _ _, OF k] sum.case
          py_slice_offset_limit[OF assms(1) l])
  moreover have "list_shopping_carts offset limit min_price max_price min_quantity max_quantity c =
           take (nat limit) (drop (nat offset)
             (filter (\<lambda>cart. (\<forall>m. min_price = Some m \<longrightarrow> m \<le> cart_price cart)
                         \<and> (\<forall>m. max_price = Some m \<longrightarrow> cart_price cart \<le> m)
                         \<and> (\<forall>m. min_quantity = Some m \<longrightarrow>
                                m \<le> sum_list (map cp_quantity (cart_items cart)))
                         \<and> (\<forall>m. max_quantity = Some m \<longrightarrow>
                                sum_list (map cp_quantity (cart_items cart)) \<le> m))
                (map snd (cart_storage c))))"
    by (simp only: list_shopping_carts_def Let_def py_slice_offset_limit[OF assms(1) l]
          none_or_ge_iff none_or_le_iff)
  ultimately show ?thesis by (rule conjI)
qed

theorem listing_filters_then_slices_witness:
  "(0::int) \<le> 1 \<and> (0::int) < 1
   \<and> list_products 1 1 (Some 0) (Some 50) False example_shop =
       Inr [\<lparr>prod_id = 2, prod_name = JStr ''b'', prod_price = JNum 20, prod_deleted = False\<rparr>]
   \<and> list_shopping_carts 1 1 (Some 0) (Some 50) (Some 0) (Some 3) example_shop =
       [\<lparr>cart_id = 2,
         cart_items =
           [\<lparr>cp_id = 2, cp_name = JStr ''b'', cp_quantity = 2, cp_available = True\<rparr>,
            \<lparr>cp_id = 3, cp_name = JStr ''c'', cp_quantity = 1, cp_available = True\<rparr>],
         cart_price = 50, cart_quantity = 3\<rparr>]"
proof -
  have h1: "(0::int) \<le> 1" and h2: "(0::int) < 1" by simp_all
  have h3: "(Some (0::int) = None \<and> Some (50::int) = None)
         \<or> (\<forall>p \<in> set (map snd (item_storage example_shop)).
               (False \<or> \<not> prod_deleted p) \<longrightarrow> as_number (prod_price p) \<noteq> None)"
    by (simp add: example_shop_value)
  show ?thesis
    using listing_filters_then_slices[OF h1 h2 h3, where min_quantity = "Some 0"
        and max_quantity = "Some 3" and c = example_shop]
    by (simp add: example_shop_value)
qed

text \<open>
  C8 as it is stated (for every store) does not hold: a product created with the price
  \<^verbatim>\<open>"free"\<close> is stored as it is, and a listing with a price bound then raises
  \<open>TypeError\<close> at the comparison instead of returning a list.
\<close>

theorem listing_counterexample:
  "map (prod_price \<circ> snd) (item_storage free_shop) = [JStr ''free'']
   \<and> list_products 0 10 (Some 0) None False free_shop = Inl TypeError
   \<and> list_products 0 10 None (Some 100) False free_shop = Inl TypeError"
  by (simp add: free_shop_value list_products_def keep_product_def py_ge_def py_le_def)

subsection \<open>Claim C2: a soft-deleted product\<close>

lemma inv_keys_differ:
  "keys_ok d \<Longrightarrow> map_of d i = Some p \<Longrightarrow> i \<noteq> int (length d) + 1"
proof
  assume a: "keys_ok d" "map_of d i = Some p" "i = int (length d) + 1"
  have "i \<in> fst ` set d" using a(2) by (rule map_of_Some_key)
  moreover have "i \<notin> fst ` set d" using a(1,3) keys_ok_fresh by simp
  ultimately show False by simp
qed

lemma set_py_slice: "set (py_slice xs a b) \<subseteq> set xs"
proof -
  have "set (take n (drop m xs)) \<subseteq> set xs" for n m
    using set_take_subset set_drop_subset by (rule subset_trans)
  then show ?thesis by (simp add: py_slice_def Let_def)
qed

lemma stored_by_id:
  assumes "items_ok d" and "q \<in> snd ` set d"
  shows "map_of d (prod_id q) = Some q"
proof -
  obtain k where k: "(k, q) \<in> set d" using assms(2) by auto
  then have "prod_id q = k" using assms(1) by (auto simp: items_ok_def)
  moreover have "distinct (map fst d)" using assms(1) by (simp add: items_ok_def keys_ok_distinct)
  ultimately show ?thesis using k by simp
qed


lemma add_keeps_items: "item_storage (snd (add_product_to_cart add c j s)) = item_storage s"
  by (simp add: add_product_to_cart_def Let_def split: option.splits sum.splits)

lemma deleted_stays_step:
  assumes "inv s" and "map_of (item_storage s) i = Some p" and "prod_deleted p"
  shows "map_of (item_storage (step add v r s)) i = Some p"
proof (cases r)
  case PostCart
  then show ?thesis using assms(2) by (simp add: create_shopping_cart_def Let_def)
next
  case (PostItem pd)
  have "i \<noteq> int (length (item_storage s)) + 1"
    using assms(1,2) by (auto simp: inv_def items_ok_def dest: inv_keys_differ)
  then show ?thesis using assms(2) PostItem
    by (simp add: create_product_def Let_def update_conv' split: option.splits)
next
  case (PatchItem j pd)
  show ?thesis
  proof (cases "j = i")
    case True
    then show ?thesis using PatchItem assms(2,3)
      by (cases v) (simp_all add: partial_update_product_def partial_update_product_l3_def)
  next
    case False
    then have "map_of (AList.update j q (item_storage s)) i = Some p" for q
      using assms(2) by (simp add: update_conv')
    then show ?thesis using PatchItem assms(2)
      by (cases v)
         (simp_all add: partial_update_product_def partial_update_product_l3_def
            split: option.splits prod.splits)
  qed
next
  case (PutItem j pd)
  show ?thesis
  proof (cases "j = i")
    case True
    then show ?thesis using PutItem assms(2,3)
      by (cases v) (simp_all add: update_product_def update_product_l3_def)
  next
    case False
    then have "map_of (AList.update j q (item_storage s)) i = Some p" for q
      using assms(2) by (simp add: update_conv')
    then show ?thesis using PutItem assms(2)
      by (cases v)
         (simp_all add: update_product_def update_product_l3_def Let_def
            split: option.splits)
  qed
next
  case (DeleteItem j)
  show ?thesis
  proof (cases "j = i")
    case True
    then show ?thesis using DeleteItem assms(2,3) by (simp add: delete_product_def)
  next
    case False
    then have "map_of (AList.update j q (item_storage s)) i = Some p" for q
      using assms(2) by (simp add: update_conv')
    then show ?thesis using DeleteItem assms(2)
      by (simp add: delete_product_def split: option.splits)
  qed
next
  case (PostCartAdd c j)
  then show ?thesis using assms(2) by (simp add: add_keeps_items)
qed

lemma deleted_stays_run:
  "inv s \<Longrightarrow> map_of (item_storage s) i = Some p \<Longrightarrow> prod_deleted p \<Longrightarrow>
     map_of (item_storage (run add v rs s)) i = Some p"
  by (induction rs arbitrary: s) (simp_all add: inv_step deleted_stays_step)


lemma comprehension_kept:
  "comprehension cond xs = Inr ys \<Longrightarrow> y \<in> set ys \<Longrightarrow> y \<in> set xs \<and> cond y = Inr True"
proof (induction xs arbitrary: ys)
  case Nil
  then show ?case by simp
next
  case (Cons x xs)
  from Cons.prems(1) obtain keep zs where c: "cond x = Inr keep"
    and z: "comprehension cond xs = Inr zs" and ys: "ys = (if keep then x # zs else zs)"
    by (auto split: sum.splits)
  show ?case
  proof (cases "y \<in> set zs")
    case True
    then show ?thesis using Cons.IH[OF z] by simp
  next
    case False
    then have "y = x" and "keep" using Cons.prems(2) ys by (auto split: if_splits)
    then show ?thesis using c by simp
  qed
qed

lemma keep_product_True_visible:
  "keep_product False min_price max_price q = Inr True \<Longrightarrow> \<not> prod_deleted q"
  by (simp add: keep_product_def split: if_splits)

lemma listed_not_deleted:
  assumes "inv s" and "map_of (item_storage s) i = Some p" and "prod_deleted p"
    and "list_products offset limit min_price max_price False s = Inr qs"
    and "q \<in> set qs"
  shows "prod_id q \<noteq> i"
proof
  assume qi: "prod_id q = i"
  obtain filtered where f: "comprehension (keep_product False min_price max_price)
        (map snd (item_storage s)) = Inr filtered"
    and qs: "qs = py_slice filtered offset (offset + limit)"
    using assms(4) by (auto simp: list_products_def split: sum.splits)
  have "set qs \<subseteq> set filtered" unfolding qs by (rule set_py_slice)
  then have "q \<in> set filtered" using assms(5) by (rule subsetD)
  then have q: "q \<in> set (map snd (item_storage s))"
    and k: "keep_product False min_price max_price q = Inr True"
    using comprehension_kept[OF f] by simp_all
  have nd: "\<not> prod_deleted q" using k by (rule keep_product_True_visible)
  have "items_ok (item_storage s)" using assms(1) by (simp add: inv_def)
  moreover have "q \<in> snd ` set (item_storage s)" using q by simp
  ultimately have "map_of (item_storage s) (prod_id q) = Some q" by (rule stored_by_id)
  then show False using qi assms(2,3) nd by simp
qed

lemma deleted_shop_l3_value:
  "deleted_shop_l3 =
     \<lparr>cart_storage = [],
      item_storage =
        [(1, \<lparr>prod_id = 1, prod_name = JStr ''pen'', prod_price = JNum 3,
               prod_deleted = True\<rparr>)]\<rparr>"
  by (simp add: deleted_shop_l3_def empty_shop_def create_product_def delete_product_def Let_def)

text \<open>
  C2, as the two modules have it. Once a product is soft-deleted it stays so under every
  later sequence of requests, and then: in lecture\_2, PUT and PATCH on it raise
  \<^verbatim>\<open>HTTPException(304, "Not modified")\<close> and leave the store as it is; in lecture\_3, PUT
  and PATCH on it raise \<^verbatim>\<open>HTTPException(404, "Item not found")\<close> and leave the store as
  it is; in both, GET on it raises 404, and no product of a listing without
  \<^verbatim>\<open>show_deleted\<close> carries its identifier.
\<close>

theorem soft_deleted_product_is_closed:
  assumes "s = run add v rs empty_shop"
    and "map_of (item_storage s) i = Some p" and "prod_deleted p"
    and "s' = run add v rs' s"
  shows "(case v of
            Lecture2 \<Rightarrow>
              update_product i product_data s' = (Inl (HTTPException 304 ''Not modified''), s')
            \<and> partial_update_product i product_data s'
                = (Inl (HTTPException 304 ''Not modified''), s')
            \<and> retrieve_product i s' = Inl (HTTPException 404 ''Item not found (deleted)'')
          | Lecture3 \<Rightarrow>
              update_product_l3 i product_data s'
                = (Inl (HTTPException 404 ''Item not found''), s')
            \<and> partial_update_product_l3 i product_data s'
                = (Inl (HTTPException 404 ''Item not found''), s')
            \<and> retrieve_product_l3 i s' = Inl (HTTPException 404 ''Item not found''))
       \<and> (\<forall>qs. list_products offset limit min_price max_price False s' = Inr qs \<longrightarrow>
             (\<forall>q \<in> set qs. prod_id q \<noteq> i))"
proof -
  have i: "inv s" using assms(1) by (simp add: inv_reachable)
  then have i': "inv s'" using assms(4) by (simp add: inv_run)
  have p: "map_of (item_storage s') i = Some p"
    using i assms(2,3,4) by (simp add: deleted_stays_run)
  have l: "\<forall>qs. list_products offset limit min_price max_price False s' = Inr qs \<longrightarrow>
             (\<forall>q \<in> set qs. prod_id q \<noteq> i)"
    using listed_not_deleted[OF i' p assms(3)] by blast
  have a2: "update_product i product_data s' = (Inl (HTTPException 304 ''Not modified''), s')"
    using p assms(3) by (simp add: update_product_def)
  have b2: "partial_update_product i product_data s'
              = (Inl (HTTPException 304 ''Not modified''), s')"
    using p assms(3) by (simp add: partial_update_product_def)
  have c2: "retrieve_product i s' = Inl (HTTPException 404 ''Item not found (deleted)'')"
    using p assms(3) by (simp add: retrieve_product_def)
  have a3: "update_product_l3 i product_data s' = (Inl (HTTPException 404 ''Item not found''), s')"
    using p assms(3) by (simp add: update_product_l3_def)
  have b3: "partial_update_product_l3 i product_data s'
              = (Inl (HTTPException 404 ''Item not found''), s')"
    using p assms(3) by (simp add: partial_update_product_l3_def)
  have c3: "retrieve_product_l3 i s' = Inl (HTTPException 404 ''Item not found'')"
    using p assms(3) by (simp add: retrieve_product_l3_def)
  show ?thesis
  proof (cases v)
    case Lecture2
    then show ?thesis using a2 b2 c2 l by simp
  next
    case Lecture3
    then show ?thesis using a3 b3 c3 l by simp
  qed
qed

theorem soft_deleted_product_is_closed_witness:
  "map_of (item_storage example_shop) 4
     = Some \<lparr>prod_id = 4, prod_name = JStr ''d'', prod_price = JNum 15, prod_deleted = True\<rparr>
   \<and> fst (update_product 4 [(''name'', JStr ''e''), (''price'', JNum 1)]
            (run int_add Lecture2 [PatchItem 4 [(''price'', JNum 1)], PostCart] example_shop))
       = Inl (HTTPException 304 ''Not modified'')
   \<and> fst (partial_update_product 4 [(''name'', JStr ''e''), (''price'', JNum 1)]
            (run int_add Lecture2 [PatchItem 4 [(''price'', JNum 1)], PostCart] example_shop))
       = Inl (HTTPException 304 ''Not modified'')
   \<and> retrieve_product 4
        (run int_add Lecture2 [PatchItem 4 [(''price'', JNum 1)], PostCart] example_shop)
       = Inl (HTTPException 404 ''Item not found (deleted)'')
   \<and> fst (update_product_l3 1 [(''name'', JStr ''e''), (''price'', JNum 1)]
            (run int_add Lecture3 [PutItem 1 [(''name'', JStr ''f''), (''price'', JNum 2)]]
               deleted_shop_l3))
       = Inl (HTTPException 404 ''Item not found'')
   \<and> fst (partial_update_product_l3 1 [(''name'', JStr ''e''), (''price'', JNum 1)]
            (run int_add Lecture3 [PutItem 1 [(''name'', JStr ''f''), (''price'', JNum 2)]]
               deleted_shop_l3))
       = Inl (HTTPException 404 ''Item not found'')
   \<and> retrieve_product_l3 1
        (run int_add Lecture3 [PutItem 1 [(''name'', JStr ''f''), (''price'', JNum 2)]]
           deleted_shop_l3)
       = Inl (HTTPException 404 ''Item not found'')"
proof -
  have h2: "map_of (item_storage example_shop) 4
     = Some \<lparr>prod_id = 4, prod_name = JStr ''d'', prod_price = JNum 15, prod_deleted = True\<rparr>"
    by (simp add: example_shop_value)
  have d2: "prod_deleted \<lparr>prod_id = 4, prod_name = JStr ''d'', prod_price = JNum (15::int),
              prod_deleted = True\<rparr>"
    by simp
  have h3: "map_of (item_storage deleted_shop_l3) 1
     = Some \<lparr>prod_id = 1, prod_name = JStr ''pen'', prod_price = JNum 3, prod_deleted = True\<rparr>"
    by (simp add: deleted_shop_l3_value)
  have d3: "prod_deleted \<lparr>prod_id = 1, prod_name = JStr ''pen'', prod_price = JNum (3::int),
              prod_deleted = True\<rparr>"
    by simp
  note w2 = soft_deleted_product_is_closed[OF example_shop_def h2 d2 refl,
      where rs' = "[PatchItem 4 [(''price'', JNum 1)], PostCart]"
        and product_data = "[(''name'', JStr ''e''), (''price'', JNum 1)]"
        and offset = 0 and limit = 1 and min_price = None and max_price = None]
  note w3 = soft_deleted_product_is_closed[OF deleted_shop_l3_def h3 d3 refl,
      where rs' = "[PutItem 1 [(''name'', JStr ''f''), (''price'', JNum 2)]]"
        and product_data = "[(''name'', JStr ''e''), (''price'', JNum 1)]"
        and offset = 0 and limit = 1 and min_price = None and max_price = None]
  have "fst (update_product 4 [(''name'', JStr ''e''), (''price'', JNum 1)]
            (run int_add Lecture2 [PatchItem 4 [(''price'', JNum 1)], PostCart] example_shop))
       = Inl (HTTPException 304 ''Not modified'')
   \<and> fst (partial_update_product 4 [(''name'', JStr ''e''), (''price'', JNum 1)]
            (run int_add Lecture2 [PatchItem 4 [(''price'', JNum 1)], PostCart] example_shop))
       = Inl (HTTPException 304 ''Not modified'')
   \<and> retrieve_product 4
        (run int_add Lecture2 [PatchItem 4 [(''price'', JNum 1)], PostCart] example_shop)
       = Inl (HTTPException 404 ''Item not found (deleted)'')"
    using w2 by (simp only: version.case fst_conv simp_thms)
  moreover have "fst (update_product_l3 1 [(''name'', JStr ''e''), (''price'', JNum 1)]
            (run int_add Lecture3 [PutItem 1 [(''name'', JStr ''f''), (''price'', JNum 2)]]
               deleted_shop_l3))
       = Inl (HTTPException 404 ''Item not found'')
   \<and> fst (partial_update_product_l3 1 [(''name'', JStr ''e''), (''price'', JNum 1)]
            (run int_add Lecture3 [PutItem 1 [(''name'', JStr ''f''), (''price'', JNum 2)]]
               deleted_shop_l3))
       = Inl (HTTPException 404 ''Item not found'')
   \<and> retrieve_product_l3 1
        (run int_add Lecture3 [PutItem 1 [(''name'', JStr ''f''), (''price'', JNum 2)]]
           deleted_shop_l3)
       = Inl (HTTPException 404 ''Item not found'')"
    using w3 by (simp only: version.case fst_conv simp_thms)
  ultimately show ?thesis using h2 by simp
qed

text \<open>
  C2 as it is stated (every PUT and PATCH on a soft-deleted product fails with the
  not-modified signal) does not hold of lecture\_3, whose \<^verbatim>\<open>partial_update_product\<close>
  and \<^verbatim>\<open>update_product\<close> answer 404 to a deleted product.
\<close>

theorem not_modified_counterexample:
  "map_of (item_storage deleted_shop_l3) 1
     = Some \<lparr>prod_id = 1, prod_name = JStr ''pen'', prod_price = JNum 3, prod_deleted = True\<rparr>
   \<and> fst (partial_update_product_l3 1 [(''price'', JNum 4)] deleted_shop_l3)
       = Inl (HTTPException 404 ''Item not found'')
   \<and> fst (update_product_l3 1 [(''name'', JStr ''ink''), (''price'', JNum 4)] deleted_shop_l3)
       = Inl (HTTPException 404 ''Item not found'')
   \<and> fst (partial_update_product_l3 1 [(''price'', JNum 4)] deleted_shop_l3)
       \<noteq> Inl (HTTPException 304 ''Not modified'')
   \<and> fst (update_product_l3 1 [(''name'', JStr ''ink''), (''price'', JNum 4)] deleted_shop_l3)
       \<noteq> Inl (HTTPException 304 ''Not modified'')"
  by (simp add: deleted_shop_l3_value partial_update_product_l3_def update_product_l3_def)

subsection \<open>Claims C7, C10 and C9: identifiers and carts\<close>

lemma update_fresh_append: "k \<notin> fst ` set d \<Longrightarrow> AList.update k v d = d @ [(k, v)]"
  by (induction d) auto

lemma length_update_ge: "length d \<le> length (AList.update k v d)"
  by (induction d) auto

lemma step_items_length: "length (item_storage s) \<le> length (item_storage (step add v r s))"
proof (cases r)
  case PostCart
  then show ?thesis by (simp add: create_shopping_cart_def Let_def)
next
  case (PostItem pd)
  then show ?thesis
    by (simp add: create_product_def Let_def length_update_ge split: option.splits)
next
  case (PatchItem j pd)
  then show ?thesis
    by (cases v)
       (simp_all add: partial_update_product_def partial_update_product_l3_def length_update_ge
          split: option.splits prod.splits)
next
  case (PutItem j pd)
  then show ?thesis
    by (cases v)
       (simp_all add: update_product_def update_product_l3_def Let_def length_update_ge
          split: option.splits)
next
  case (DeleteItem j)
  then show ?thesis by (simp add: delete_product_def length_update_ge split: option.splits)
next
  case (PostCartAdd c j)
  then show ?thesis by (simp add: add_keeps_items)
qed

lemma step_carts_length: "length (cart_storage s) \<le> length (cart_storage (step add v r s))"
proof (cases r)
  case PostCart
  then show ?thesis by (simp add: create_shopping_cart_def Let_def length_update_ge)
next
  case (PostItem pd)
  then show ?thesis by (simp add: create_product_def Let_def split: option.splits)
next
  case (PatchItem j pd)
  then show ?thesis
    by (cases v)
       (simp_all add: partial_update_product_def partial_update_product_l3_def
          split: option.splits prod.splits)
next
  case (PutItem j pd)
  then show ?thesis
    by (cases v)
       (simp_all add: update_product_def update_product_l3_def Let_def split: option.splits)
next
  case (DeleteItem j)
  then show ?thesis by (simp add: delete_product_def split: option.splits)
next
  case (PostCartAdd c j)
  then show ?thesis
    by (simp add: add_product_to_cart_def Let_def length_update_ge
          split: option.splits sum.splits)
qed

lemma items_ok_ids: "items_ok d \<Longrightarrow> map (prod_id \<circ> snd) d = map fst d"
  by (rule map_cong) (auto simp: items_ok_def)

lemma carts_ok_ids: "carts_ok d \<Longrightarrow> map (cart_id \<circ> snd) d = map fst d"
  by (rule map_cong) (auto simp: carts_ok_def)








lemma example_cart_2: "map_of (cart_storage example_shop) 2 = Some example_cart"
  by (simp add: example_shop_value example_cart_def)

lemma example_item_2:
  "map_of (item_storage example_shop) 2 =
     Some \<lparr>prod_id = 2, prod_name = JStr ''b'', prod_price = JNum 20, prod_deleted = False\<rparr>"
  by (simp add: example_shop_value)

lemma example_item_4:
  "map_of (item_storage example_shop) 4 =
     Some \<lparr>prod_id = 4, prod_name = JStr ''d'', prod_price = JNum 15, prod_deleted = True\<rparr>"
  by (simp add: example_shop_value)



text \<open>
  C7. In every store reached from the empty one (in either module), cart creation and
  product creation assign the identifier \<open>len + 1\<close>, one more than the number of stored
  entries, and append the new entry; the identifiers assigned so far are \<open>1, \<dots>, len\<close>,
  both as keys and as the \<^verbatim>\<open>id\<close> fields, hence pairwise distinct; and no request makes
  either dictionary shorter.
\<close>

theorem identifiers_are_count_plus_one:
  assumes "s = run add v rs empty_shop"
  shows "create_shopping_cart s =
           (int (length (cart_storage s)) + 1,
            s\<lparr>cart_storage := cart_storage s @
                [(int (length (cart_storage s)) + 1,
                  \<lparr>cart_id = int (length (cart_storage s)) + 1, cart_items = [],
                    cart_price = 0, cart_quantity = 0\<rparr>)]\<rparr>)
       \<and> (map_of product_data ''name'' = Some n \<and> map_of product_data ''price'' = Some x \<longrightarrow>
            create_product product_data s =
              (Inr \<lparr>prod_id = int (length (item_storage s)) + 1, prod_name = n, prod_price = x,
                     prod_deleted = False\<rparr>,
               s\<lparr>item_storage := item_storage s @
                   [(int (length (item_storage s)) + 1,
                     \<lparr>prod_id = int (length (item_storage s)) + 1, prod_name = n,
                       prod_price = x, prod_deleted = False\<rparr>)]\<rparr>))
       \<and> map fst (item_storage s) = [1..int (length (item_storage s))]
       \<and> map (prod_id \<circ> snd) (item_storage s) = [1..int (length (item_storage s))]
       \<and> map fst (cart_storage s) = [1..int (length (cart_storage s))]
       \<and> map (cart_id \<circ> snd) (cart_storage s) = [1..int (length (cart_storage s))]
       \<and> distinct (map (prod_id \<circ> snd) (item_storage s))
       \<and> distinct (map (cart_id \<circ> snd) (cart_storage s))
       \<and> length (item_storage s) \<le> length (item_storage (step add v r s))
       \<and> length (cart_storage s) \<le> length (cart_storage (step add v r s))"
proof -
  have i: "inv s" using assms by (simp add: inv_reachable)
  then have io: "items_ok (item_storage s)" and co: "carts_ok (cart_storage s)"
    by (simp_all add: inv_def)
  have ik: "keys_ok (item_storage s)" using io by (simp add: items_ok_def)
  have ck: "keys_ok (cart_storage s)" using co by (simp add: carts_ok_def)
  have c1: "create_shopping_cart s =
           (int (length (cart_storage s)) + 1,
            s\<lparr>cart_storage := cart_storage s @
                [(int (length (cart_storage s)) + 1,
                  \<lparr>cart_id = int (length (cart_storage s)) + 1, cart_items = [],
                    cart_price = 0, cart_quantity = 0\<rparr>)]\<rparr>)"
    using keys_ok_fresh[OF ck] by (simp add: create_shopping_cart_def Let_def update_fresh_append)
  have c2: "map_of product_data ''name'' = Some n \<and> map_of product_data ''price'' = Some x \<longrightarrow>
            create_product product_data s =
              (Inr \<lparr>prod_id = int (length (item_storage s)) + 1, prod_name = n, prod_price = x,
                     prod_deleted = False\<rparr>,
               s\<lparr>item_storage := item_storage s @
                   [(int (length (item_storage s)) + 1,
                     \<lparr>prod_id = int (length (item_storage s)) + 1, prod_name = n,
                       prod_price = x, prod_deleted = False\<rparr>)]\<rparr>)"
    using keys_ok_fresh[OF ik] by (simp add: create_product_def Let_def update_fresh_append)
  have c3: "map fst (item_storage s) = [1..int (length (item_storage s))]"
    using ik by (simp add: keys_ok_def)
  have c4: "map (prod_id \<circ> snd) (item_storage s) = [1..int (length (item_storage s))]"
    using c3 items_ok_ids[OF io] by simp
  have c5: "map fst (cart_storage s) = [1..int (length (cart_storage s))]"
    using ck by (simp add: keys_ok_def)
  have c6: "map (cart_id \<circ> snd) (cart_storage s) = [1..int (length (cart_storage s))]"
    using c5 carts_ok_ids[OF co] by simp
  have c7: "distinct (map (prod_id \<circ> snd) (item_storage s))"
    by (simp only: c4 distinct_upto)
  have c8: "distinct (map (cart_id \<circ> snd) (cart_storage s))"
    by (simp only: c6 distinct_upto)
  show ?thesis
    using c1 c2 c3 c4 c5 c6 c7 c8 step_items_length[of s add v r] step_carts_length[of s add v r]
    by blast
qed


theorem identifiers_are_count_plus_one_witness:
  "map_of [(''name'', JStr ''e''), (''price'', JNum (7::int))] ''name'' = Some (JStr ''e'')
   \<and> map_of [(''name'', JStr ''e''), (''price'', JNum (7::int))] ''price'' = Some (JNum 7)
   \<and> fst (create_shopping_cart example_shop) = 3
   \<and> fst (create_product [(''name'', JStr ''e''), (''price'', JNum 7)] example_shop)
       = Inr \<lparr>prod_id = 5, prod_name = JStr ''e'', prod_price = JNum 7, prod_deleted = False\<rparr>
   \<and> map (prod_id \<circ> snd) (item_storage example_shop) = [1, 2, 3, 4]
   \<and> map (cart_id \<circ> snd) (cart_storage example_shop) = [1, 2]"
proof -
  have l: "length (item_storage example_shop) = 4" "length (cart_storage example_shop) = 2"
    by (simp_all add: example_shop_value)
  have u: "[1..(4::int)] = [1, 2, 3, 4]" "[1..(2::int)] = [1, 2]" by (simp_all add: upto.simps)
  have g: "map_of [(''name'', JStr ''e''), (''price'', JNum (7::int))] ''name'' = Some (JStr ''e'')
         \<and> map_of [(''name'', JStr ''e''), (''price'', JNum (7::int))] ''price'' = Some (JNum 7)"
    by simp
  show ?thesis
    using identifiers_are_count_plus_one[OF example_shop_def,
        where product_data = "[(''name'', JStr ''e''), (''price'', JNum 7)]"
          and n = "JStr ''e''" and x = "JNum 7" and r = PostCart] g
    by (simp add: l u)
qed




text \<open>
  C9, where the product's price is a number that the cart's price can take. For an
  existing cart and an existing product of a reachable store, when the product's stored
  price is a number and its addition to the cart's price does not overflow,
  \<^verbatim>\<open>add_product_to_cart\<close> returns its message and writes the cart back with: the entry
  of that product's identifier raised by one and no entry appended, when there is such an
  entry; one new entry of quantity 1 appended otherwise; in both cases the cart's price
  raised by the product's current price and the cart's quantity by 1.
\<close>

theorem add_to_cart_is_upsert:
  assumes "s = run add v rs empty_shop"
    and "map_of (cart_storage s) c = Some cart"
    and "map_of (item_storage s) i = Some item"
    and "as_number (prod_price item) = Some x"
    and "add (cart_price cart) x = Some new_price"
  shows "add_product_to_cart add c i s =
           (Inr ''Item added to cart'',
            s\<lparr>cart_storage := AList.update c
                (cart\<lparr>cart_items :=
                   (if i \<in> cp_id ` set (cart_items cart)
                    then map (\<lambda>e. if cp_id e = i then e\<lparr>cp_quantity := cp_quantity e + 1\<rparr> else e)
                           (cart_items cart)
                    else cart_items cart @
                           [\<lparr>cp_id = i, cp_name = prod_name item, cp_quantity = 1,
                             cp_available = (\<not> prod_deleted item)\<rparr>]),
                   cart_price := new_price,
                   cart_quantity := cart_quantity cart + 1\<rparr>)
                (cart_storage s)\<rparr>)"
proof -
  have i: "inv s" using assms(1) by (simp add: inv_reachable)
  have pid: "prod_id item = i" using i assms(3) by (auto simp: inv_def dest: items_ok_id)
  have "cart_ok cart" using i assms(2) by (auto simp: inv_def dest: carts_ok_lookup)
  then have d: "distinct (map cp_id (cart_items cart))" by (simp add: cart_ok_def)
  have p: "py_add add (cart_price cart) (prod_price item) = Inr new_price"
    using assms(4,5) by (simp add: py_add_def)
  show ?thesis
  proof (cases "i \<in> cp_id ` set (cart_items cart)")
    case True
    have "bump_first i (cart_items cart) =
       Some (map (\<lambda>e. if cp_id e = i then e\<lparr>cp_quantity := cp_quantity e + 1\<rparr> else e)
              (cart_items cart))"
      using d True by (rule bump_first_distinct)
    then show ?thesis using True assms(2,3) p
      by (simp add: add_product_to_cart_def Let_def)
  next
    case False
    then have "bump_first i (cart_items cart) = None" by (simp add: bump_first_None)
    then show ?thesis using False assms(2,3) pid p
      by (simp add: add_product_to_cart_def Let_def)
  qed
qed

theorem add_to_cart_is_upsert_witness:
  "fst (add_product_to_cart int_add 2 2 example_shop) = Inr ''Item added to cart''
   \<and> map_of (cart_storage (snd (add_product_to_cart int_add 2 2 example_shop))) 2 =
       Some \<lparr>cart_id = 2,
              cart_items =
                [\<lparr>cp_id = 2, cp_name = JStr ''b'', cp_quantity = 3, cp_available = True\<rparr>,
                 \<lparr>cp_id = 3, cp_name = JStr ''c'', cp_quantity = 1, cp_available = True\<rparr>],
              cart_price = 70, cart_quantity = 4\<rparr>
   \<and> map_of (cart_storage (snd (add_product_to_cart int_add 2 4 example_shop))) 2 =
       Some \<lparr>cart_id = 2,
              cart_items =
                [\<lparr>cp_id = 2, cp_name = JStr ''b'', cp_quantity = 2, cp_available = True\<rparr>,
                 \<lparr>cp_id = 3, cp_name = JStr ''c'', cp_quantity = 1, cp_available = True\<rparr>,
                 \<lparr>cp_id = 4, cp_name = JStr ''d'', cp_quantity = 1, cp_available = False\<rparr>],
              cart_price = 65, cart_quantity = 4\<rparr>"
proof -
  have n2: "as_number (prod_price \<lparr>prod_id = 2, prod_name = JStr ''b'', prod_price = JNum (20::int),
              prod_deleted = False\<rparr>) = Some 20"
    and n4: "as_number (prod_price \<lparr>prod_id = 4, prod_name = JStr ''d'', prod_price = JNum (15::int),
              prod_deleted = True\<rparr>) = Some 15"
    by simp_all
  have a2: "int_add (cart_price example_cart) 20 = Some 70"
    and a4: "int_add (cart_price example_cart) 15 = Some 65"
    by (simp_all add: int_add_def example_cart_def)
  show ?thesis
    using add_to_cart_is_upsert[OF example_shop_def example_cart_2 example_item_2 n2 a2]
      add_to_cart_is_upsert[OF example_shop_def example_cart_2 example_item_4 n4 a4]
    by (simp add: update_conv' example_cart_def)
qed

text \<open>
  C9 as it is stated (for every existing cart and product) does not hold: for a product
  whose stored price is \<^verbatim>\<open>"free"\<close> the handler raises \<open>TypeError\<close>, and the cart's
  price and quantity are not raised.
\<close>

theorem add_to_cart_counterexample:
  "free_shop =
     run int_add Lecture2
       [PostItem [(''name'', JStr ''x''), (''price'', JStr ''free'')], PostCart] empty_shop
   \<and> map_of (cart_storage free_shop) 1 =
       Some \<lparr>cart_id = 1, cart_items = [], cart_price = 0, cart_quantity = 0\<rparr>
   \<and> map_of (item_storage free_shop) 1 =
       Some \<lparr>prod_id = 1, prod_name = JStr ''x'', prod_price = JStr ''free'',
              prod_deleted = False\<rparr>
   \<and> fst (add_product_to_cart int_add 1 1 free_shop) = Inl TypeError
   \<and> map_of (cart_storage (snd (add_product_to_cart int_add 1 1 free_shop))) 1 =
       Some \<lparr>cart_id = 1,
              cart_items =
                [\<lparr>cp_id = 1, cp_name = JStr ''x'', cp_quantity = 1, cp_available = True\<rparr>],
              cart_price = 0, cart_quantity = 0\<rparr>"
proof (rule conjI)
  show "free_shop =
     run int_add Lecture2
       [PostItem [(''name'', JStr ''x''), (''price'', JStr ''free'')], PostCart] empty_shop"
    by (simp only: free_shop_def free_requests_def)
qed (simp add: free_shop_value add_product_to_cart_def py_add_def Let_def)

section \<open>The claims about the account registry\<close>

lemma service_ok_new: "service_ok (new_service validators)"
  by (simp add: service_ok_def new_service_def keys_ok_def)

lemma service_ok_register: "service_ok svc \<Longrightarrow> service_ok (snd (register user_info svc))"
  unfolding service_ok_def register_def Let_def
  by (auto simp: keys_ok_append dest!: set_update_cases)

lemma service_ok_grant: "service_ok svc \<Longrightarrow> service_ok (snd (grant_admin i svc))"
proof (cases "map_of (accounts svc) i")
  case None
  assume "service_ok svc"
  then show ?thesis using None by (simp add: grant_admin_def)
next
  case (Some a)
  assume ok: "service_ok svc"
  have "uid a = i" using ok Some by (auto simp: service_ok_def dest: map_of_SomeD)
  then show ?thesis using ok Some
    unfolding service_ok_def grant_admin_def
    by (auto simp: keys_ok_update dest!: set_update_cases)
qed

lemma service_ok_step: "service_ok svc \<Longrightarrow> service_ok (user_step r svc)"
  by (cases r) (simp_all add: service_ok_register service_ok_grant)

lemma service_ok_run: "service_ok svc \<Longrightarrow> service_ok (user_run rs svc)"
  by (induction rs arbitrary: svc) (simp_all add: service_ok_step)

lemma validators_step: "password_validators (user_step r svc) = password_validators svc"
  by (cases r) (simp_all add: register_def grant_admin_def Let_def split: option.splits)

lemma validators_run: "password_validators (user_run rs svc) = password_validators svc"
  by (induction rs arbitrary: svc) (simp_all add: validators_step)

lemma find_None_append: "find P xs = None \<Longrightarrow> find P (xs @ ys) = find P ys"
  by (induction xs) (auto split: if_splits)

lemma find_Some_holds: "find P xs = Some a \<Longrightarrow> P a \<and> a \<in> set xs"
  by (induction xs) (auto split: if_splits)

lemma account_by_uid:
  assumes "service_ok svc" and "a \<in> snd ` set (accounts svc)"
  shows "get_by_id (uid a) svc = Some a"
proof -
  obtain k where k: "(k, a) \<in> set (accounts svc)" using assms(2) by auto
  then have "uid a = k" using assms(1) by (auto simp: service_ok_def)
  moreover have "distinct (map fst (accounts svc))"
    using assms(1) by (simp add: service_ok_def keys_ok_distinct)
  ultimately show ?thesis using k by (simp add: get_by_id_def)
qed

lemma example_service_value:
  "example_service =
     \<lparr>accounts = [(1, alice_account), (2, root_account)], password_validators = [password_is_longer_than_8]\<rparr>"
  by (simp add: example_service_def default_service_def new_service_def register_def
        get_by_username_def Let_def alice_info_def root_info_def alice_account_def root_account_def
        password_is_longer_than_8_def)

lemma example_service_reachable:
  "example_service = user_run [Register alice_info, Register root_info]
     (new_service [password_is_longer_than_8])"
  by (simp only: example_service_def default_service_def)

text \<open>
  C1. For every registry and every \<open>user_info\<close> whose username is already present,
  \<^verbatim>\<open>register\<close> fails with \<open>ConflictError\<close> and returns the registry as it was, so the
  account stored under that username is the same. For every registry reached from an
  empty one, and every \<open>info'\<close> with a username not yet present and a password that
  every configured predicate accepts, \<^verbatim>\<open>register\<close> assigns the identifier
  \<open>len + 1\<close>, under which nothing was stored, appends the account with role \<open>USER\<close>
  unless the caller gave another role, and returns the account it stored.
\<close>

theorem register_conflict_or_fresh:
  "(get_by_username (info_username user_info) svc = Some a \<longrightarrow>
      register user_info svc = (Inl ConflictError, svc)
      \<and> get_by_username (info_username user_info) (snd (register user_info svc)) = Some a)
   \<and> (svc' = user_run rs (new_service validators)
      \<and> get_by_username (info_username info') svc' = None
      \<and> list_all (\<lambda>validator. validator (info_password info')) validators \<longrightarrow>
      (let new_id = int (length (accounts svc')) + 1;
           entity = \<lparr>uid = new_id, username = info_username info', name = info_name info',
                     birthdate = info_birthdate info',
                     role = (case info_role info' of None \<Rightarrow> USER | Some r \<Rightarrow> r),
                     password = info_password info'\<rparr>
       in register info' svc' = (Inr entity, svc'\<lparr>accounts := accounts svc' @ [(new_id, entity)]\<rparr>)
          \<and> get_by_id new_id svc' = None
          \<and> get_by_id new_id (snd (register info' svc')) = Some entity
          \<and> get_by_username (info_username info') (snd (register info' svc')) = Some entity))"
proof (intro conjI impI)
  assume "get_by_username (info_username user_info) svc = Some a"
  then show "register user_info svc = (Inl ConflictError, svc)"
    by (simp add: register_def)
next
  assume h: "get_by_username (info_username user_info) svc = Some a"
  then have "register user_info svc = (Inl ConflictError, svc)" by (simp add: register_def)
  then show "get_by_username (info_username user_info) (snd (register user_info svc)) = Some a"
    using h by simp
next
  assume h: "svc' = user_run rs (new_service validators)
      \<and> get_by_username (info_username info') svc' = None
      \<and> list_all (\<lambda>validator. validator (info_password info')) validators"
  then have h1: "svc' = user_run rs (new_service validators)"
    and h2: "get_by_username (info_username info') svc' = None"
    and h3: "list_all (\<lambda>validator. validator (info_password info')) validators"
    by blast+
  define new_id where "new_id = int (length (accounts svc')) + 1"
  define entity where "entity = \<lparr>uid = new_id, username = info_username info', name = info_name info',
                     birthdate = info_birthdate info',
                     role = (case info_role info' of None \<Rightarrow> USER | Some r \<Rightarrow> r),
                     password = info_password info'\<rparr>"
  have ok: "service_ok svc'" unfolding h1 by (simp add: service_ok_run service_ok_new)
  then have fresh: "new_id \<notin> fst ` set (accounts svc')"
    unfolding new_id_def by (simp add: service_ok_def keys_ok_fresh)
  have v: "password_validators svc' = validators"
    unfolding h1 by (simp add: validators_run new_service_def)
  have up: "AList.update new_id entity (accounts svc') = accounts svc' @ [(new_id, entity)]"
    using fresh by (rule update_fresh_append)
  have r: "register info' svc' = (Inr entity, svc'\<lparr>accounts := accounts svc' @ [(new_id, entity)]\<rparr>)"
    unfolding register_def Let_def
    by (simp only: h2 v h3 up[unfolded entity_def new_id_def] entity_def new_id_def
          simp_thms if_False if_True)
  have n: "get_by_id new_id svc' = None"
    using fresh by (simp add: get_by_id_def map_of_eq_None_iff)
  have g: "get_by_id new_id (snd (register info' svc')) = Some entity"
    using n by (simp add: r get_by_id_def map_add_def)
  have "find (\<lambda>a. username a = info_username info') (map snd (accounts svc')) = None"
    using h2 by (simp add: get_by_username_def)
  then have u: "get_by_username (info_username info') (snd (register info' svc')) = Some entity"
    by (simp add: r get_by_username_def find_None_append entity_def)
  show "let new_id = int (length (accounts svc')) + 1;
           entity = \<lparr>uid = new_id, username = info_username info', name = info_name info',
                     birthdate = info_birthdate info',
                     role = (case info_role info' of None \<Rightarrow> USER | Some r \<Rightarrow> r),
                     password = info_password info'\<rparr>
       in register info' svc' = (Inr entity, svc'\<lparr>accounts := accounts svc' @ [(new_id, entity)]\<rparr>)
          \<and> get_by_id new_id svc' = None
          \<and> get_by_id new_id (snd (register info' svc')) = Some entity
          \<and> get_by_username (info_username info') (snd (register info' svc')) = Some entity"
    using r n g u unfolding Let_def entity_def new_id_def by simp
qed

theorem register_conflict_or_fresh_witness:
  "get_by_username ''alice'' example_service = Some alice_account
   \<and> register (alice_info\<lparr>info_name := ''Other'', info_password := ''OtherPassword1''\<rparr>)
        example_service = (Inl ConflictError, example_service)
   \<and> get_by_username ''bob'' example_service = None
   \<and> fst (register bob_info example_service)
       = Inr \<lparr>uid = 3, username = ''bob'', name = ''Bob'',
               birthdate = ''1992-02-02T00:00:00'', role = USER, password = ''123456789''\<rparr>
   \<and> fst (register (bob_info\<lparr>info_role := Some ADMIN\<rparr>) example_service)
       = Inr \<lparr>uid = 3, username = ''bob'', name = ''Bob'',
               birthdate = ''1992-02-02T00:00:00'', role = ADMIN, password = ''123456789''\<rparr>"
proof -
  have a: "get_by_username ''alice'' example_service = Some alice_account"
    by (simp add: example_service_value get_by_username_def alice_account_def)
  have b: "get_by_username ''bob'' example_service = None"
    by (simp add: example_service_value get_by_username_def alice_account_def root_account_def)
  have v: "list_all (\<lambda>validator. validator ''123456789'') [password_is_longer_than_8]"
    by (simp add: password_is_longer_than_8_def)
  have l: "length (accounts example_service) = 2" by (simp add: example_service_value)
  note w1 = register_conflict_or_fresh[where svc = example_service and a = alice_account
      and user_info = "alice_info\<lparr>info_name := ''Other'', info_password := ''OtherPassword1''\<rparr>"
      and svc' = example_service and rs = "[Register alice_info, Register root_info]"
      and validators = "[password_is_longer_than_8]" and info' = bob_info]
  note w2 = register_conflict_or_fresh[where svc = example_service and a = alice_account
      and user_info = alice_info
      and svc' = example_service and rs = "[Register alice_info, Register root_info]"
      and validators = "[password_is_longer_than_8]"
      and info' = "bob_info\<lparr>info_role := Some ADMIN\<rparr>"]
  show ?thesis
    using w1 w2 a b v example_service_reachable
    by (simp add: alice_info_def bob_info_def l Let_def)
qed

text \<open>
  The default predicate at its boundary, and a registration with a short password whose
  username is not yet present: whichever of the two checks of \<^verbatim>\<open>register\<close> comes
  first, the predicate is the one to fail.
\<close>

lemma short_password_fresh_username:
  "(length pw \<le> 8 \<longrightarrow> \<not> password_is_longer_than_8 pw)
   \<and> (8 < length pw \<longrightarrow> password_is_longer_than_8 pw)
   \<and> (password_validators svc = [password_is_longer_than_8]
        \<and> get_by_username (info_username user_info) svc = None
        \<and> length (info_password user_info) \<le> 8 \<longrightarrow>
        register user_info svc = (Inl ValidationError, svc))"
  by (simp add: password_is_longer_than_8_def register_def Let_def)

text \<open>
  C4. For every registry and every identifier that is not in it, \<^verbatim>\<open>grant_admin\<close> fails
  with \<open>NotFoundError\<close> and returns the registry as it was. For every identifier that is
  in it, \<^verbatim>\<open>grant_admin\<close> sets that account's role to \<open>ADMIN\<close>, leaves every other
  account as it was, and a second \<^verbatim>\<open>grant_admin\<close> on the same identifier succeeds and
  leaves the registry as the first one left it.
\<close>

theorem grant_admin_found_or_not:
  "(get_by_id i svc = None \<longrightarrow> grant_admin i svc = (Inl NotFoundError, svc))
   \<and> (get_by_id i svc' = Some a \<longrightarrow>
        fst (grant_admin i svc') = Inr ()
        \<and> get_by_id i (snd (grant_admin i svc')) = Some (a\<lparr>role := ADMIN\<rparr>)
        \<and> (\<forall>j. j \<noteq> i \<longrightarrow> get_by_id j (snd (grant_admin i svc')) = get_by_id j svc')
        \<and> grant_admin i (snd (grant_admin i svc')) = (Inr (), snd (grant_admin i svc')))"
proof (intro conjI impI)
  assume "get_by_id i svc = None"
  then show "grant_admin i svc = (Inl NotFoundError, svc)"
    by (simp add: grant_admin_def get_by_id_def)
next
  assume h: "get_by_id i svc' = Some a"
  then have g: "grant_admin i svc' =
      (Inr (), svc'\<lparr>accounts := AList.update i (a\<lparr>role := ADMIN\<rparr>) (accounts svc')\<rparr>)"
    by (simp add: grant_admin_def get_by_id_def)
  show "fst (grant_admin i svc') = Inr ()" by (simp add: g)
  show "get_by_id i (snd (grant_admin i svc')) = Some (a\<lparr>role := ADMIN\<rparr>)"
    by (simp add: g get_by_id_def update_conv')
  show "\<forall>j. j \<noteq> i \<longrightarrow> get_by_id j (snd (grant_admin i svc')) = get_by_id j svc'"
    by (simp add: g get_by_id_def update_conv')
  show "grant_admin i (snd (grant_admin i svc')) = (Inr (), snd (grant_admin i svc'))"
    by (simp add: g) (simp add: grant_admin_def update_conv')
qed

theorem grant_admin_found_or_not_witness:
  "get_by_id 1234 example_service = None
   \<and> grant_admin 1234 example_service = (Inl NotFoundError, example_service)
   \<and> get_by_id 1 example_service = Some alice_account
   \<and> get_by_id 1 (snd (grant_admin 1 example_service)) = Some (alice_account\<lparr>role := ADMIN\<rparr>)
   \<and> get_by_id 2 (snd (grant_admin 1 example_service)) = Some root_account
   \<and> snd (grant_admin 1 (snd (grant_admin 1 example_service)))
       = snd (grant_admin 1 example_service)"
proof -
  have n: "get_by_id 1234 example_service = None"
    by (simp add: example_service_value get_by_id_def)
  have s: "get_by_id 1 example_service = Some alice_account"
    by (simp add: example_service_value get_by_id_def)
  have t: "get_by_id 2 example_service = Some root_account"
    by (simp add: example_service_value get_by_id_def)
  show ?thesis
    using grant_admin_found_or_not[where i = 1234 and svc = example_service
        and svc' = example_service and a = alice_account]
      grant_admin_found_or_not[where i = 1 and svc = example_service
        and svc' = example_service and a = alice_account]
      n s t
    by simp
qed

text \<open>
  C5. For every registry and every caller, the query by id or username fails with
  \<open>BadRequest\<close> when both parameters are given and when neither is.
\<close>

theorem get_user_both_or_neither:
  "get_user author (Some i) (Some u) svc = Inl BadRequest
   \<and> get_user author None None svc = Inl BadRequest"
  by (simp add: get_user_def)

theorem get_user_both_or_neither_witness:
  "get_user alice_account (Some 1) (Some ''alice'') example_service = Inl BadRequest
   \<and> get_user root_account None None example_service = Inl BadRequest"
  using get_user_both_or_neither[of alice_account 1 "''alice''" example_service]
    get_user_both_or_neither[of root_account 1 "''alice''" example_service]
  by simp

text \<open>
  C6. For every registry reached from an empty one and every caller that
  \<^verbatim>\<open>requires_author\<close> resolved from it and whose role is not \<open>ADMIN\<close>: a query by id
  returns the caller's own account when the id is the caller's and fails otherwise; a
  query by username returns the caller's own account when the username is the caller's
  and fails otherwise.
\<close>

theorem non_admin_resolves_only_self:
  assumes "svc = user_run rs (new_service validators)"
    and "requires_author cred_username cred_password svc = Inr author"
    and "role author \<noteq> ADMIN"
  shows "get_user author (Some i) None svc
           = (if i = uid author then Inr author else Inl ServerError)
       \<and> get_user author None (Some u) svc
           = (if u = username author then Inr author else Inl ServerError)"
proof -
  have ok: "service_ok svc" unfolding assms(1) by (simp add: service_ok_run service_ok_new)
  have f: "find (\<lambda>a. username a = cred_username) (map snd (accounts svc)) = Some author"
    using assms(2)
    by (auto simp: requires_author_def get_by_username_def split: option.splits if_splits)
  then have un: "username author = cred_username" and mem: "author \<in> snd ` set (accounts svc)"
    using find_Some_holds[OF f] by simp_all
  have byname: "get_by_username (username author) svc = Some author"
    using f un by (simp add: get_by_username_def)
  have byid: "get_by_id (uid author) svc = Some author"
    using ok mem by (rule account_by_uid)
  show ?thesis using assms(3) byname byid by (simp add: get_user_def)
qed

theorem non_admin_resolves_only_self_witness:
  "requires_author ''alice'' ''AlicePassword1'' example_service = Inr alice_account
   \<and> role alice_account \<noteq> ADMIN
   \<and> get_user alice_account (Some 1) None example_service = Inr alice_account
   \<and> get_user alice_account None (Some ''alice'') example_service = Inr alice_account
   \<and> get_by_id 2 example_service = Some root_account
   \<and> get_user alice_account (Some 2) None example_service = Inl ServerError
   \<and> get_user alice_account None (Some ''root'') example_service = Inl ServerError"
proof -
  have a: "requires_author ''alice'' ''AlicePassword1'' example_service = Inr alice_account"
    by (simp add: requires_author_def get_by_username_def example_service_value alice_account_def)
  have r: "role alice_account \<noteq> ADMIN" by (simp add: alice_account_def)
  have t: "get_by_id 2 example_service = Some root_account"
    by (simp add: example_service_value get_by_id_def)
  have u: "uid alice_account = 1" "username alice_account = ''alice''" by (simp_all add: alice_account_def)
  show ?thesis
    using non_admin_resolves_only_self[OF example_service_reachable a r, of 1 "''alice''"]
      non_admin_resolves_only_self[OF example_service_reachable a r, of 2 "''root''"]
      a r t
    by (simp add: u)
qed


end
